theory Spec2Isabelle
  imports Complex_Main
begin

section \<open>Payment rail cost scenario explorer: the cost engine of app.py\<close>

text \<open>
  The script app.py computes, for a fixed ordered list of payment methods, the monthly
  cost of a baseline and of a scenario transaction mix. This theory embeds the
  computational part of the script (cost engine, scenario quantities, comparison table,
  breakdown table, chart shares); the widgets and the charts are not modelled.

  A Python \<open>int\<close> is an \<^typ>\<open>int\<close>. A dictionary is a map, and a subscript
  \<open>d[k]\<close> with a missing key is \<open>KeyError\<close>. The floats of the script are embedded
  twice.

  \<^item> In exact arithmetic: a float is a \<^typ>\<open>real\<close> and every operation is the
    exact one. This reading carries the properties that relate outputs of the script to
    each other and to the formula that the script evaluates. A Python division raises
    \<open>ZeroDivisionError\<close> on a zero divisor; a numpy or pandas division does not raise
    but yields \<open>inf\<close> or \<open>NaN\<close>: such a value, and the \<open>NaN\<close> pandas puts
    where a label is missing, is \<open>None\<close> in a \<^typ>\<open>real option\<close>.

  \<^item> In IEEE 754 binary64 arithmetic (the definitions with the suffix \<open>f64\<close>): a
    float is a \<open>double\<close>, every operation rounds its exact result to the nearest double,
    ties to even, and overflows to an infinity. This reading carries the properties that
    depend on rounding, on overflow or on \<open>NaN\<close>. The sign of a zero is not modelled:
    \<open>-0.0\<close> compares equal to \<open>0.0\<close>, and the script never divides by a zero.
\<close>

subsection \<open>Constants and inputs\<close>

datatype error = KeyError string | ZeroDivisionError | OverflowError | ValueError

definition PAYMENT_METHODS :: "string list" where
  "PAYMENT_METHODS =
     [''Invoice (no fee)'', ''Installments'', ''Prepayment'', ''TWINT'', ''Visa'',
      ''Mastercard'', ''PayPal'']"

definition AVERAGE_BASKET_VALUE :: real where
  "AVERAGE_BASKET_VALUE = 200"

definition baseline_transactions :: "string \<rightharpoonup> int" where
  "baseline_transactions = map_of
     [(''Invoice (no fee)'', 600000), (''Installments'', 40000), (''Prepayment'', 30000),
      (''TWINT'', 350000), (''Visa'', 220000), (''Mastercard'', 140000),
      (''PayPal'', 80000)]"

text \<open>The sliders of the relative changes start at \<open>0\<close>, one for each payment method.\<close>

definition default_relative_changes :: "string \<rightharpoonup> real" where
  "default_relative_changes = map_of (map (\<lambda>pm. (pm, 0)) PAYMENT_METHODS)"

text \<open>The value of \<open>cost_params[pm]\<close>: a dictionary with five fixed keys.\<close>

record params =
  psp_fee :: real
  process_cost :: real
  dev_maintenance :: real
  write_off_rate :: real
  dunning_fee_per_tx :: real

definition default_cost_params :: "string \<rightharpoonup> params" where
  "default_cost_params = map_of
     [(''Invoice (no fee)'',
         \<lparr>psp_fee = 0, process_cost = 10 / 100, dev_maintenance = 10 / 100,
          write_off_rate = 8 / 1000, dunning_fee_per_tx = 30 / 100\<rparr>),
      (''Installments'',
         \<lparr>psp_fee = 0, process_cost = 10 / 100, dev_maintenance = 10 / 100,
          write_off_rate = 10 / 1000, dunning_fee_per_tx = 40 / 100\<rparr>),
      (''Prepayment'',
         \<lparr>psp_fee = 0, process_cost = 8 / 100, dev_maintenance = 5 / 100,
          write_off_rate = 0, dunning_fee_per_tx = 0\<rparr>),
      (''TWINT'',
         \<lparr>psp_fee = 20 / 1000, process_cost = 5 / 100, dev_maintenance = 5 / 100,
          write_off_rate = 0, dunning_fee_per_tx = 0\<rparr>),
      (''Visa'',
         \<lparr>psp_fee = 18 / 1000, process_cost = 5 / 100, dev_maintenance = 5 / 100,
          write_off_rate = 0, dunning_fee_per_tx = 0\<rparr>),
      (''Mastercard'',
         \<lparr>psp_fee = 18 / 1000, process_cost = 5 / 100, dev_maintenance = 5 / 100,
          write_off_rate = 0, dunning_fee_per_tx = 0\<rparr>),
      (''PayPal'',
         \<lparr>psp_fee = 30 / 1000, process_cost = 5 / 100, dev_maintenance = 5 / 100,
          write_off_rate = 0, dunning_fee_per_tx = 0\<rparr>)]"

subsection \<open>Division and integer conversion\<close>

text \<open>\<open>a / b\<close> on Python numbers.\<close>

definition py_div :: "real \<Rightarrow> real \<Rightarrow> error + real" where
  "py_div a b = (if b = 0 then Inl ZeroDivisionError else Inr (a / b))"

text \<open>\<open>a / b\<close> on numpy scalars and pandas columns: no exception, a non-finite result.\<close>

definition np_div :: "real \<Rightarrow> real \<Rightarrow> real option" where
  "np_div a b = (if b = 0 then None else Some (a / b))"

text \<open>\<open>int(x)\<close> on a float drops the fractional part.\<close>

definition py_int :: "real \<Rightarrow> int" where
  "py_int x = (if x < 0 then \<lceil>x\<rceil> else \<lfloor>x\<rfloor>)"

subsection \<open>Cost engine\<close>

definition cost_blocks :: "string list" where
  "cost_blocks =
     [''PSP fees'', ''Process costs'', ''Dev & maintenance'', ''Write-offs'',
      ''Dunning fee revenue'']"

definition compute_per_tx_cost_blocks :: "params \<Rightarrow> (string \<rightharpoonup> real)" where
  "compute_per_tx_cost_blocks p =
     (let psp = psp_fee p;
          process = process_cost p;
          dev = dev_maintenance p;
          write_off = write_off_rate p * AVERAGE_BASKET_VALUE;
          dunning_revenue = - dunning_fee_per_tx p
      in map_of
           [(''PSP fees'', psp), (''Process costs'', process), (''Dev & maintenance'', dev),
            (''Write-offs'', write_off), (''Dunning fee revenue'', dunning_revenue)])"

text \<open>A row of the summary frame \<open>df\<close>; \<open>payment_method\<close> is its index label.\<close>

record summary_row =
  payment_method :: string
  transactions :: int
  total_cost :: real
  average_cost :: real

type_synonym breakdown = "string \<rightharpoonup> (string \<rightharpoonup> real)"

text \<open>\<open>{pm: {cb: 0.0 for cb in cost_blocks} for pm in PAYMENT_METHODS}\<close>\<close>

definition zero_blocks :: "string \<rightharpoonup> real" where
  "zero_blocks = foldl (\<lambda>d cb. d(cb \<mapsto> 0)) Map.empty cost_blocks"

definition breakdown_init :: breakdown where
  "breakdown_init = foldl (\<lambda>d pm. d(pm \<mapsto> zero_blocks)) Map.empty PAYMENT_METHODS"

text \<open>The inner loop \<open>for cb in cost_blocks\<close>, on the state \<open>(breakdown, total_cost_pm)\<close>.\<close>

fun block_loop ::
  "(string \<rightharpoonup> real) \<Rightarrow> int \<Rightarrow> string \<Rightarrow> string list \<Rightarrow> breakdown \<times> real
     \<Rightarrow> error + breakdown \<times> real" where
  "block_loop per_tx_blocks tx pm [] st = Inr st"
| "block_loop per_tx_blocks tx pm (cb # cbs) (breakdown, total_cost_pm) =
     (case per_tx_blocks cb of
        None \<Rightarrow> Inl (KeyError cb)
      | Some v \<Rightarrow>
          (let block_cost = v * of_int tx in
           case breakdown pm of
             None \<Rightarrow> Inl (KeyError pm)
           | Some row \<Rightarrow>
               (case row cb of
                  None \<Rightarrow> Inl (KeyError cb)
                | Some old \<Rightarrow>
                    block_loop per_tx_blocks tx pm cbs
                      (breakdown(pm \<mapsto> row(cb \<mapsto> old + block_cost)),
                       total_cost_pm + block_cost))))"

text \<open>The outer loop \<open>for pm in PAYMENT_METHODS\<close>, on the state \<open>(rows, breakdown)\<close>.\<close>

fun method_loop ::
  "(string \<rightharpoonup> params) \<Rightarrow> (string \<rightharpoonup> int) \<Rightarrow> string list
     \<Rightarrow> summary_row list \<times> breakdown \<Rightarrow> error + summary_row list \<times> breakdown" where
  "method_loop cost_params transactions_dict [] st = Inr st"
| "method_loop cost_params transactions_dict (pm # pms) (rows, breakdown) =
     (case transactions_dict pm of
        None \<Rightarrow> Inl (KeyError pm)
      | Some tx \<Rightarrow>
          (case cost_params pm of
             None \<Rightarrow> Inl (KeyError pm)
           | Some p \<Rightarrow>
               (case block_loop (compute_per_tx_cost_blocks p) tx pm cost_blocks
                       (breakdown, 0) of
                  Inl e \<Rightarrow> Inl e
                | Inr (breakdown', total_cost_pm) \<Rightarrow>
                    (case (if tx > 0 then py_div total_cost_pm (of_int tx) else Inr 0) of
                       Inl e \<Rightarrow> Inl e
                     | Inr avg_cost_pm \<Rightarrow>
                         method_loop cost_params transactions_dict pms
                           (rows @ [\<lparr>payment_method = pm, transactions = tx,
                                     total_cost = total_cost_pm,
                                     average_cost = avg_cost_pm\<rparr>],
                            breakdown')))))"

definition compute_costs ::
  "(string \<rightharpoonup> params) \<Rightarrow> (string \<rightharpoonup> int) \<Rightarrow> error + summary_row list \<times> breakdown" where
  "compute_costs cost_params transactions_dict =
     method_loop cost_params transactions_dict PAYMENT_METHODS ([], breakdown_init)"

subsection \<open>Baseline and scenario quantities\<close>

text \<open>
  \<open>baseline_tx = {pm: baseline_transactions[pm] for pm in PAYMENT_METHODS}\<close>, for any
  dictionary \<open>base\<close> in the place of the literal \<^const>\<open>baseline_transactions\<close>.
\<close>

fun baseline_tx_loop ::
  "(string \<rightharpoonup> int) \<Rightarrow> string list \<Rightarrow> (string \<rightharpoonup> int) \<Rightarrow> error + (string \<rightharpoonup> int)" where
  "baseline_tx_loop base [] d = Inr d"
| "baseline_tx_loop base (pm # pms) d =
     (case base pm of
        None \<Rightarrow> Inl (KeyError pm)
      | Some q \<Rightarrow> baseline_tx_loop base pms (d(pm \<mapsto> q)))"

definition baseline_tx :: "(string \<rightharpoonup> int) \<Rightarrow> error + (string \<rightharpoonup> int)" where
  "baseline_tx base = baseline_tx_loop base PAYMENT_METHODS Map.empty"

text \<open>
  The loop that fills \<open>scenario_tx\<close>. \<open>growth_factor\<close> and \<open>relative_changes\<close> are
  the slider values; the sidebar stores one relative change for each payment method.
\<close>

fun scenario_tx_loop ::
  "(string \<rightharpoonup> int) \<Rightarrow> real \<Rightarrow> (string \<rightharpoonup> real) \<Rightarrow> string list \<Rightarrow> (string \<rightharpoonup> int)
     \<Rightarrow> error + (string \<rightharpoonup> int)" where
  "scenario_tx_loop base_tx growth_factor relative_changes [] d = Inr d"
| "scenario_tx_loop base_tx growth_factor relative_changes (pm # pms) d =
     (case relative_changes pm of
        None \<Rightarrow> Inl (KeyError pm)
      | Some change \<Rightarrow>
          (let factor = 1 + change / 100 in
           case base_tx pm of
             None \<Rightarrow> Inl (KeyError pm)
           | Some q \<Rightarrow>
               scenario_tx_loop base_tx growth_factor relative_changes pms
                 (d(pm \<mapsto> py_int (of_int q * growth_factor * factor)))))"

definition scenario_tx ::
  "(string \<rightharpoonup> int) \<Rightarrow> real \<Rightarrow> (string \<rightharpoonup> real) \<Rightarrow> error + (string \<rightharpoonup> int)" where
  "scenario_tx base_tx growth_factor relative_changes =
     scenario_tx_loop base_tx growth_factor relative_changes PAYMENT_METHODS Map.empty"

text \<open>
  What the spec calls truncation toward zero of \<open>x\<close>: the integer \<open>n\<close> between
  \<open>0\<close> and \<open>x\<close> that is less than one away from \<open>x\<close>.
\<close>

definition truncation_toward_zero :: "real \<Rightarrow> int \<Rightarrow> bool" where
  "truncation_toward_zero x n \<longleftrightarrow>
     \<bar>of_int n\<bar> \<le> \<bar>x\<bar> \<and> \<bar>x\<bar> < \<bar>of_int n\<bar> + 1 \<and> 0 \<le> of_int n * x"

subsection \<open>Totals\<close>


definition baseline_total_cost :: "summary_row list \<Rightarrow> real" where
  "baseline_total_cost baseline_df = sum_list (map total_cost baseline_df)"

definition scenario_total_cost :: "summary_row list \<Rightarrow> real" where
  "scenario_total_cost scenario_df = sum_list (map total_cost scenario_df)"

subsection \<open>Comparison table\<close>

text \<open>
  \<open>comparison_df\<close> has the index \<open>PAYMENT_METHODS\<close>; assigning a column of
  \<open>baseline_df\<close> or \<open>scenario_df\<close> to it aligns on the label, and pandas fills a label
  the right-hand side lacks with \<open>NaN\<close>. The columns are computed element by element,
  so the frame is modelled row by row.
\<close>

definition row_of :: "summary_row list \<Rightarrow> string \<Rightarrow> summary_row option" where
  "row_of df pm = find (\<lambda>r. payment_method r = pm) df"

record comparison_row =
  cmp_label :: string
  cmp_baseline_transactions :: "int option"
  cmp_scenario_transactions :: "int option"
  cmp_baseline_cost :: "real option"
  cmp_scenario_cost :: "real option"
  cmp_cost_delta :: "real option"
  cmp_cost_delta_pct :: "real option"

text \<open>Arithmetic on column entries: \<open>NaN\<close> propagates, and \<open>NaN > 0\<close> is false.\<close>

definition nan_minus :: "real option \<Rightarrow> real option \<Rightarrow> real option" where
  "nan_minus a b =
     (case a of None \<Rightarrow> None | Some x \<Rightarrow> (case b of None \<Rightarrow> None | Some y \<Rightarrow> Some (x - y)))"

definition nan_div :: "real option \<Rightarrow> real option \<Rightarrow> real option" where
  "nan_div a b =
     (case a of None \<Rightarrow> None | Some x \<Rightarrow> (case b of None \<Rightarrow> None | Some y \<Rightarrow> np_div x y))"

definition nan_times :: "real option \<Rightarrow> real \<Rightarrow> real option" where
  "nan_times a c = (case a of None \<Rightarrow> None | Some x \<Rightarrow> Some (x * c))"

definition nan_positive :: "real option \<Rightarrow> bool" where
  "nan_positive a = (case a of None \<Rightarrow> False | Some x \<Rightarrow> x > 0)"

text \<open>\<open>np.where(cond, x, y)\<close> at one position: both \<open>x\<close> and \<open>y\<close> are computed.\<close>

definition np_where :: "bool \<Rightarrow> 'a \<Rightarrow> 'a \<Rightarrow> 'a" where
  "np_where cond x y = (if cond then x else y)"

definition comparison_entry ::
  "summary_row list \<Rightarrow> summary_row list \<Rightarrow> string \<Rightarrow> comparison_row" where
  "comparison_entry baseline_df scenario_df pm =
     (let baseline_cost = map_option total_cost (row_of baseline_df pm);
          scenario_cost = map_option total_cost (row_of scenario_df pm);
          cost_delta = nan_minus scenario_cost baseline_cost
      in \<lparr>cmp_label = pm,
          cmp_baseline_transactions = map_option transactions (row_of baseline_df pm),
          cmp_scenario_transactions = map_option transactions (row_of scenario_df pm),
          cmp_baseline_cost = baseline_cost,
          cmp_scenario_cost = scenario_cost,
          cmp_cost_delta = cost_delta,
          cmp_cost_delta_pct =
            np_where (nan_positive baseline_cost)
              (nan_times (nan_div cost_delta baseline_cost) 100) (Some 0)\<rparr>)"

definition comparison_df ::
  "summary_row list \<Rightarrow> summary_row list \<Rightarrow> comparison_row list" where
  "comparison_df baseline_df scenario_df =
     map (comparison_entry baseline_df scenario_df) PAYMENT_METHODS"

text \<open>\<open>column.sum()\<close> skips \<open>NaN\<close>.\<close>

definition nansum :: "'a::comm_monoid_add option list \<Rightarrow> 'a" where
  "nansum xs = sum_list (map (\<lambda>x. case x of None \<Rightarrow> 0 | Some v \<Rightarrow> v) xs)"

record total_entry =
  tot_baseline_transactions :: int
  tot_scenario_transactions :: int
  tot_baseline_cost :: real
  tot_scenario_cost :: real
  tot_cost_delta :: real
  tot_cost_delta_pct :: "real option"

definition total_row :: "comparison_row list \<Rightarrow> total_entry" where
  "total_row cmp =
     \<lparr>tot_baseline_transactions = nansum (map cmp_baseline_transactions cmp),
      tot_scenario_transactions = nansum (map cmp_scenario_transactions cmp),
      tot_baseline_cost = nansum (map cmp_baseline_cost cmp),
      tot_scenario_cost = nansum (map cmp_scenario_cost cmp),
      tot_cost_delta = nansum (map cmp_cost_delta cmp),
      tot_cost_delta_pct =
        (if nansum (map cmp_baseline_cost cmp) > 0
         then nan_times
                (np_div (nansum (map cmp_scenario_cost cmp) - nansum (map cmp_baseline_cost cmp))
                   (nansum (map cmp_baseline_cost cmp))) 100
         else Some 0)\<rparr>"

subsection \<open>Breakdown table\<close>


fun loc_blocks :: "(string \<rightharpoonup> real) \<Rightarrow> string list \<Rightarrow> error + real list" where
  "loc_blocks row [] = Inr []"
| "loc_blocks row (cb # cbs) =
     (case row cb of
        None \<Rightarrow> Inl (KeyError cb)
      | Some v \<Rightarrow> (case loc_blocks row cbs of Inl e \<Rightarrow> Inl e | Inr vs \<Rightarrow> Inr (v # vs)))"



subsection \<open>Chart data\<close>




subsection \<open>Closed forms of the engine's loops\<close>

text \<open>
  What the loops of \<open>compute_costs\<close> compute for one payment method, as the proofs
  below establish: the row of the breakdown, the total, and the row of the summary frame.
\<close>

definition block_costs :: "params \<Rightarrow> int \<Rightarrow> (string \<rightharpoonup> real)" where
  "block_costs p tx = (\<lambda>cb. map_option (\<lambda>v. v * of_int tx) (compute_per_tx_cost_blocks p cb))"

definition blocks_total :: "params \<Rightarrow> int \<Rightarrow> real" where
  "blocks_total p tx =
     (psp_fee p + process_cost p + dev_maintenance p + write_off_rate p * AVERAGE_BASKET_VALUE
        - dunning_fee_per_tx p) * of_int tx"

definition engine_row :: "(string \<rightharpoonup> params) \<Rightarrow> (string \<rightharpoonup> int) \<Rightarrow> string \<Rightarrow> summary_row" where
  "engine_row cost_params transactions_dict pm =
     (let tx = the (transactions_dict pm); p = the (cost_params pm)
      in \<lparr>payment_method = pm, transactions = tx, total_cost = blocks_total p tx,
          average_cost = (if tx > 0 then blocks_total p tx / of_int tx else 0)\<rparr>)"


subsection \<open>An input with a negative grand total\<close>



subsection \<open>IEEE 754 binary64 arithmetic\<close>

text \<open>
  A double is a finite number, an infinity or \<open>NaN\<close>. \<open>round64\<close> rounds a real to
  the nearest double: the binade of \<open>x\<close> is the exponent \<open>e\<close> with
  \<open>2 ^ e \<le> \<bar>x\<bar> < 2 ^ (e + 1)\<close>, kept between \<open>-1022\<close> (below it the doubles are
  subnormal) and \<open>1023\<close>; the doubles of that binade are the multiples of
  \<open>2 ^ (e - 52)\<close>; \<open>x\<close> goes to the nearest multiple, to the even one when two are
  equally near, and to an infinity when that multiple reaches \<open>2 ^ 1024\<close>.
\<close>

datatype double = Finite real | PlusInf | MinusInf | NaN

definition round_half_even :: "real \<Rightarrow> int" where
  "round_half_even r =
     (let f = \<lfloor>r\<rfloor>; d = r - of_int f
      in if d < 1 / 2 then f else if 1 / 2 < d then f + 1 else if even f then f else f + 1)"

fun find_binade :: "nat \<Rightarrow> real \<Rightarrow> int" where
  "find_binade 0 a = - 1022"
| "find_binade (Suc k) a =
     (if 2 powi (int (Suc k) - 1022) \<le> a then int (Suc k) - 1022 else find_binade k a)"

definition binade :: "real \<Rightarrow> int" where
  "binade x = find_binade 2045 \<bar>x\<bar>"

definition round64 :: "real \<Rightarrow> double" where
  "round64 x =
     (let ulp = 2 powi (binade x - 52);
          y = of_int (round_half_even (x / ulp)) * ulp
      in if 2 ^ 1024 \<le> y then PlusInf
         else if y \<le> - (2 ^ 1024) then MinusInf
         else Finite y)"

text \<open>The largest finite double.\<close>

definition max_double :: real where
  "max_double = (2 ^ 53 - 1) * 2 ^ 971"

text \<open>
  Negation, addition, multiplication and division of doubles. An operation on finite
  operands rounds the exact result; the other equations are the IEEE rules for infinities
  and \<open>NaN\<close>. \<open>fdiv\<close> is the division of numpy, which does not raise on a zero divisor.
\<close>

fun fneg :: "double \<Rightarrow> double" where
  "fneg (Finite a) = Finite (- a)"
| "fneg PlusInf = MinusInf"
| "fneg MinusInf = PlusInf"
| "fneg NaN = NaN"

fun fadd :: "double \<Rightarrow> double \<Rightarrow> double" where
  "fadd (Finite a) (Finite b) = round64 (a + b)"
| "fadd NaN y = NaN"
| "fadd x NaN = NaN"
| "fadd PlusInf MinusInf = NaN"
| "fadd MinusInf PlusInf = NaN"
| "fadd PlusInf y = PlusInf"
| "fadd x PlusInf = PlusInf"
| "fadd MinusInf y = MinusInf"
| "fadd x MinusInf = MinusInf"

fun fmul :: "double \<Rightarrow> double \<Rightarrow> double" where
  "fmul (Finite a) (Finite b) = round64 (a * b)"
| "fmul NaN y = NaN"
| "fmul x NaN = NaN"
| "fmul (Finite a) y =
     (if a = 0 then NaN else if (a < 0) = (y = MinusInf) then PlusInf else MinusInf)"
| "fmul x (Finite b) =
     (if b = 0 then NaN else if (b < 0) = (x = MinusInf) then PlusInf else MinusInf)"
| "fmul x y = (if x = y then PlusInf else MinusInf)"

fun fdiv :: "double \<Rightarrow> double \<Rightarrow> double" where
  "fdiv (Finite a) (Finite b) =
     (if b = 0 then (if a = 0 then NaN else if 0 < a then PlusInf else MinusInf)
      else round64 (a / b))"
| "fdiv NaN y = NaN"
| "fdiv x NaN = NaN"
| "fdiv (Finite a) y = Finite 0"
| "fdiv x (Finite b) = (if (b < 0) = (x = MinusInf) then PlusInf else MinusInf)"
| "fdiv x y = NaN"

definition is_finite :: "double \<Rightarrow> bool" where
  "is_finite x = (case x of Finite a \<Rightarrow> True | _ \<Rightarrow> False)"

text \<open>
  Python converts an \<open>int\<close> operand of a float operation with \<open>float(n)\<close>, which rounds
  to the nearest double and raises \<open>OverflowError\<close> when that is out of range. The
  division of Python floats raises \<open>ZeroDivisionError\<close> on a zero divisor. \<open>int(x)\<close>
  raises \<open>ValueError\<close> on \<open>NaN\<close> and \<open>OverflowError\<close> on an infinity.
\<close>

definition py_float :: "int \<Rightarrow> error + double" where
  "py_float n = (case round64 (of_int n) of Finite a \<Rightarrow> Inr (Finite a) | _ \<Rightarrow> Inl OverflowError)"

definition py_truediv :: "double \<Rightarrow> double \<Rightarrow> error + double" where
  "py_truediv x y = (if y = Finite 0 then Inl ZeroDivisionError else Inr (fdiv x y))"

definition py_int_of_float :: "double \<Rightarrow> error + int" where
  "py_int_of_float x =
     (case x of Finite a \<Rightarrow> Inr (py_int a) | NaN \<Rightarrow> Inl ValueError | _ \<Rightarrow> Inl OverflowError)"

subsection \<open>Scenario quantities in binary64\<close>

text \<open>
  The two statements of the loop that fills \<open>scenario_tx\<close>:
  \<open>factor = 1.0 + relative_changes[pm] / 100.0\<close>, where the slider value is an
  \<open>int\<close>, and the product \<open>baseline_tx[pm] * growth_factor * factor\<close>, evaluated
  from left to right, whose \<open>int(...)\<close> is stored.
\<close>

definition scenario_factor_f64 :: "int \<Rightarrow> error + double" where
  "scenario_factor_f64 change =
     (case py_float change of
        Inl e \<Rightarrow> Inl e
      | Inr c \<Rightarrow>
          (case py_truediv c (Finite 100) of
             Inl e \<Rightarrow> Inl e
           | Inr ratio \<Rightarrow> Inr (fadd (Finite 1) ratio)))"

definition scenario_product_f64 :: "int \<Rightarrow> double \<Rightarrow> double \<Rightarrow> error + double" where
  "scenario_product_f64 q growth_factor factor =
     (case py_float q of
        Inl e \<Rightarrow> Inl e
      | Inr qf \<Rightarrow> Inr (fmul (fmul qf growth_factor) factor))"

fun scenario_tx_loop_f64 ::
  "(string \<rightharpoonup> int) \<Rightarrow> double \<Rightarrow> (string \<rightharpoonup> int) \<Rightarrow> string list \<Rightarrow> (string \<rightharpoonup> int)
     \<Rightarrow> error + (string \<rightharpoonup> int)" where
  "scenario_tx_loop_f64 base_tx growth_factor relative_changes [] d = Inr d"
| "scenario_tx_loop_f64 base_tx growth_factor relative_changes (pm # pms) d =
     (case relative_changes pm of
        None \<Rightarrow> Inl (KeyError pm)
      | Some change \<Rightarrow>
          (case scenario_factor_f64 change of
             Inl e \<Rightarrow> Inl e
           | Inr factor \<Rightarrow>
               (case base_tx pm of
                  None \<Rightarrow> Inl (KeyError pm)
                | Some q \<Rightarrow>
                    (case scenario_product_f64 q growth_factor factor of
                       Inl e \<Rightarrow> Inl e
                     | Inr x \<Rightarrow>
                         (case py_int_of_float x of
                            Inl e \<Rightarrow> Inl e
                          | Inr n \<Rightarrow>
                              scenario_tx_loop_f64 base_tx growth_factor relative_changes pms
                                (d(pm \<mapsto> n)))))))"

definition scenario_tx_f64 ::
  "(string \<rightharpoonup> int) \<Rightarrow> double \<Rightarrow> (string \<rightharpoonup> int) \<Rightarrow> error + (string \<rightharpoonup> int)" where
  "scenario_tx_f64 base_tx growth_factor relative_changes =
     scenario_tx_loop_f64 base_tx growth_factor relative_changes PAYMENT_METHODS Map.empty"

text \<open>The sliders of the relative changes start at the \<open>int\<close> \<open>0\<close>.\<close>

definition slider_changes :: "string \<rightharpoonup> int" where
  "slider_changes = map_of (map (\<lambda>pm. (pm, 0)) PAYMENT_METHODS)"

subsection \<open>Cost engine in binary64\<close>

text \<open>
  \<open>compute_per_tx_cost_blocks\<close> and \<open>compute_costs\<close> once more, statement by
  statement, on doubles: \<open>per_tx_blocks[cb] * tx\<close> converts the quantity to a float and
  multiplies, \<open>+=\<close> adds and rounds, and the average divides the total by the converted
  quantity.
\<close>

record params_f64 =
  psp_fee_f64 :: double
  process_cost_f64 :: double
  dev_maintenance_f64 :: double
  write_off_rate_f64 :: double
  dunning_fee_per_tx_f64 :: double

definition compute_per_tx_cost_blocks_f64 :: "params_f64 \<Rightarrow> (string \<rightharpoonup> double)" where
  "compute_per_tx_cost_blocks_f64 p =
     (let psp = psp_fee_f64 p;
          process = process_cost_f64 p;
          dev = dev_maintenance_f64 p;
          write_off = fmul (write_off_rate_f64 p) (Finite AVERAGE_BASKET_VALUE);
          dunning_revenue = fneg (dunning_fee_per_tx_f64 p)
      in map_of
           [(''PSP fees'', psp), (''Process costs'', process), (''Dev & maintenance'', dev),
            (''Write-offs'', write_off), (''Dunning fee revenue'', dunning_revenue)])"

record summary_row_f64 =
  payment_method_f64 :: string
  transactions_f64 :: int
  total_cost_f64 :: double
  average_cost_f64 :: double

type_synonym breakdown_f64 = "string \<rightharpoonup> (string \<rightharpoonup> double)"

definition zero_blocks_f64 :: "string \<rightharpoonup> double" where
  "zero_blocks_f64 = foldl (\<lambda>d cb. d(cb \<mapsto> Finite 0)) Map.empty cost_blocks"

definition breakdown_init_f64 :: breakdown_f64 where
  "breakdown_init_f64 = foldl (\<lambda>d pm. d(pm \<mapsto> zero_blocks_f64)) Map.empty PAYMENT_METHODS"

fun block_loop_f64 ::
  "(string \<rightharpoonup> double) \<Rightarrow> int \<Rightarrow> string \<Rightarrow> string list \<Rightarrow> breakdown_f64 \<times> double
     \<Rightarrow> error + breakdown_f64 \<times> double" where
  "block_loop_f64 per_tx_blocks tx pm [] st = Inr st"
| "block_loop_f64 per_tx_blocks tx pm (cb # cbs) (breakdown, total_cost_pm) =
     (case per_tx_blocks cb of
        None \<Rightarrow> Inl (KeyError cb)
      | Some v \<Rightarrow>
          (case py_float tx of
             Inl e \<Rightarrow> Inl e
           | Inr t \<Rightarrow>
               (let block_cost = fmul v t in
                case breakdown pm of
                  None \<Rightarrow> Inl (KeyError pm)
                | Some row \<Rightarrow>
                    (case row cb of
                       None \<Rightarrow> Inl (KeyError cb)
                     | Some old \<Rightarrow>
                         block_loop_f64 per_tx_blocks tx pm cbs
                           (breakdown(pm \<mapsto> row(cb \<mapsto> fadd old block_cost)),
                            fadd total_cost_pm block_cost)))))"

fun method_loop_f64 ::
  "(string \<rightharpoonup> params_f64) \<Rightarrow> (string \<rightharpoonup> int) \<Rightarrow> string list
     \<Rightarrow> summary_row_f64 list \<times> breakdown_f64 \<Rightarrow> error + summary_row_f64 list \<times> breakdown_f64" where
  "method_loop_f64 cost_params transactions_dict [] st = Inr st"
| "method_loop_f64 cost_params transactions_dict (pm # pms) (rows, breakdown) =
     (case transactions_dict pm of
        None \<Rightarrow> Inl (KeyError pm)
      | Some tx \<Rightarrow>
          (case cost_params pm of
             None \<Rightarrow> Inl (KeyError pm)
           | Some p \<Rightarrow>
               (case block_loop_f64 (compute_per_tx_cost_blocks_f64 p) tx pm cost_blocks
                       (breakdown, Finite 0) of
                  Inl e \<Rightarrow> Inl e
                | Inr (breakdown', total_cost_pm) \<Rightarrow>
                    (case (if tx > 0
                           then (case py_float tx of
                                   Inl e \<Rightarrow> Inl e
                                 | Inr t \<Rightarrow> py_truediv total_cost_pm t)
                           else Inr (Finite 0)) of
                       Inl e \<Rightarrow> Inl e
                     | Inr avg_cost_pm \<Rightarrow>
                         method_loop_f64 cost_params transactions_dict pms
                           (rows @ [\<lparr>payment_method_f64 = pm, transactions_f64 = tx,
                                     total_cost_f64 = total_cost_pm,
                                     average_cost_f64 = avg_cost_pm\<rparr>],
                            breakdown')))))"

definition compute_costs_f64 ::
  "(string \<rightharpoonup> params_f64) \<Rightarrow> (string \<rightharpoonup> int)
     \<Rightarrow> error + summary_row_f64 list \<times> breakdown_f64" where
  "compute_costs_f64 cost_params transactions_dict =
     method_loop_f64 cost_params transactions_dict PAYMENT_METHODS ([], breakdown_init_f64)"

definition row_of_f64 :: "summary_row_f64 list \<Rightarrow> string \<Rightarrow> summary_row_f64 option" where
  "row_of_f64 df pm = find (\<lambda>r. payment_method_f64 r = pm) df"

text \<open>
  The grand totals and the grand average of a frame (the script computes them with the
  same expressions for the baseline and for the scenario). The sum of a float column
  skips \<open>NaN\<close> and adds the seven entries in the order of the index; the quantities are
  an \<open>int64\<close> column, whose sum does not wrap for the quantities considered below;
  the division is the division of numpy scalars.
\<close>

definition nan_to_zero :: "double \<Rightarrow> double" where
  "nan_to_zero x = (if x = NaN then Finite 0 else x)"

definition total_cost_column_f64 :: "summary_row_f64 list \<Rightarrow> double" where
  "total_cost_column_f64 df = foldl fadd (Finite 0) (map (\<lambda>r. nan_to_zero (total_cost_f64 r)) df)"

definition total_transactions_f64 :: "summary_row_f64 list \<Rightarrow> int" where
  "total_transactions_f64 df = sum_list (map transactions_f64 df)"

definition avg_cost_f64 :: "summary_row_f64 list \<Rightarrow> double" where
  "avg_cost_f64 df =
     (if total_transactions_f64 df > 0
      then fdiv (total_cost_column_f64 df) (round64 (of_int (total_transactions_f64 df)))
      else Finite 0)"

subsection \<open>Closed forms of the binary64 loops\<close>

definition stored_quantity_f64 ::
  "(string \<rightharpoonup> int) \<Rightarrow> double \<Rightarrow> (string \<rightharpoonup> int) \<Rightarrow> string \<Rightarrow> int" where
  "stored_quantity_f64 base_tx growth_factor relative_changes pm =
     (case scenario_factor_f64 (the (relative_changes pm)) of
        Inl e \<Rightarrow> 0
      | Inr f \<Rightarrow>
          (case scenario_product_f64 (the (base_tx pm)) growth_factor f of
             Inr (Finite y) \<Rightarrow> py_int y
           | _ \<Rightarrow> 0))"

definition block_costs_f64 :: "params_f64 \<Rightarrow> int \<Rightarrow> (string \<rightharpoonup> double)" where
  "block_costs_f64 p tx =
     (\<lambda>cb. map_option (\<lambda>v. fadd (Finite 0) (fmul v (Finite (of_int tx))))
              (compute_per_tx_cost_blocks_f64 p cb))"

definition blocks_total_f64 :: "params_f64 \<Rightarrow> int \<Rightarrow> double" where
  "blocks_total_f64 p tx =
     foldl fadd (Finite 0)
       (map (\<lambda>cb. fmul (the (compute_per_tx_cost_blocks_f64 p cb)) (Finite (of_int tx))) cost_blocks)"

definition engine_row_f64 ::
  "(string \<rightharpoonup> params_f64) \<Rightarrow> (string \<rightharpoonup> int) \<Rightarrow> string \<Rightarrow> summary_row_f64" where
  "engine_row_f64 cost_params transactions_dict pm =
     (let tx = the (transactions_dict pm); p = the (cost_params pm)
      in \<lparr>payment_method_f64 = pm, transactions_f64 = tx, total_cost_f64 = blocks_total_f64 p tx,
          average_cost_f64 =
            (if tx > 0 then fdiv (blocks_total_f64 p tx) (Finite (of_int tx)) else Finite 0)\<rparr>)"

subsection \<open>Inputs for the binary64 engine\<close>

text \<open>
  The same cost parameters entered for every payment method: parameters that are exact in
  binary, a PSP fee of \<open>2 ^ 1014\<close> CHF (about \<open>1.8e305\<close>), and a write-off rate of
  \<open>2 ^ 1020\<close> (about \<open>1.1e307\<close>). All are finite doubles.
\<close>

definition uniform_cost_params_f64 :: "params_f64 \<Rightarrow> (string \<rightharpoonup> params_f64)" where
  "uniform_cost_params_f64 p = map_of (map (\<lambda>pm. (pm, p)) PAYMENT_METHODS)"

definition dyadic_params :: params_f64 where
  "dyadic_params =
     \<lparr>psp_fee_f64 = Finite (1 / 4), process_cost_f64 = Finite (1 / 2),
      dev_maintenance_f64 = Finite (1 / 2), write_off_rate_f64 = Finite (1 / 8),
      dunning_fee_per_tx_f64 = Finite (1 / 4)\<rparr>"

definition huge_fee_params :: params_f64 where
  "huge_fee_params =
     \<lparr>psp_fee_f64 = Finite (2 ^ 1014), process_cost_f64 = Finite 0,
      dev_maintenance_f64 = Finite 0, write_off_rate_f64 = Finite 0,
      dunning_fee_per_tx_f64 = Finite 0\<rparr>"

definition huge_write_off_params :: params_f64 where
  "huge_write_off_params =
     \<lparr>psp_fee_f64 = Finite 0, process_cost_f64 = Finite 0,
      dev_maintenance_f64 = Finite 0, write_off_rate_f64 = Finite (2 ^ 1020),
      dunning_fee_per_tx_f64 = Finite 0\<rparr>"

section \<open>Properties\<close>

subsection \<open>The loops of the engine\<close>

lemma distinct_PAYMENT_METHODS: "distinct PAYMENT_METHODS"
  by (simp add: PAYMENT_METHODS_def)

lemma distinct_cost_blocks: "distinct cost_blocks"
  by (simp add: cost_blocks_def)

lemma foldl_upd_const:
  "foldl (\<lambda>d k. d(k \<mapsto> c)) m ks = (\<lambda>k. if k \<in> set ks then Some c else m k)"
  by (induction ks arbitrary: m) (auto simp: fun_eq_iff)

lemma zero_blocks_eq: "zero_blocks = (\<lambda>cb. if cb \<in> set cost_blocks then Some 0 else None)"
  by (simp add: zero_blocks_def foldl_upd_const)

lemma breakdown_init_eq:
  "breakdown_init = (\<lambda>pm. if pm \<in> set PAYMENT_METHODS then Some zero_blocks else None)"
  by (simp add: breakdown_init_def foldl_upd_const)

lemma dom_per_tx: "dom (compute_per_tx_cost_blocks p) = set cost_blocks"
  by (auto simp: compute_per_tx_cost_blocks_def cost_blocks_def Let_def dom_def split: if_splits)

lemma block_loop_eq:
  assumes "breakdown pm = Some row" "set cbs \<subseteq> dom row" "set cbs \<subseteq> dom ptb" "distinct cbs"
  shows "block_loop ptb tx pm cbs (breakdown, t) =
     Inr (breakdown(pm \<mapsto> (\<lambda>cb. if cb \<in> set cbs then Some (the (row cb) + the (ptb cb) * of_int tx) else row cb)),
          t + sum_list (map (\<lambda>cb. the (ptb cb) * of_int tx) cbs))"
  using assms
proof (induction cbs arbitrary: breakdown row t)
  case Nil
  then show ?case by (simp add: map_upd_triv)
next
  case (Cons cb cbs)
  from Cons.prems obtain v old where v: "ptb cb = Some v" and old: "row cb = Some old"
    by auto
  let ?row' = "row(cb \<mapsto> old + v * of_int tx)"
  let ?bd' = "breakdown(pm \<mapsto> ?row')"
  have step: "block_loop ptb tx pm (cb # cbs) (breakdown, t) =
     block_loop ptb tx pm cbs (?bd', t + v * of_int tx)"
    using v old Cons.prems(1) by (simp add: Let_def)
  have ih: "block_loop ptb tx pm cbs (?bd', t + v * of_int tx) =
     Inr (?bd'(pm \<mapsto> (\<lambda>c. if c \<in> set cbs then Some (the (?row' c) + the (ptb c) * of_int tx) else ?row' c)),
          (t + v * of_int tx) + sum_list (map (\<lambda>c. the (ptb c) * of_int tx) cbs))"
    using Cons.prems by (intro Cons.IH) auto
  have rows: "(\<lambda>c. if c \<in> set cbs then Some (the (?row' c) + the (ptb c) * of_int tx) else ?row' c)
     = (\<lambda>c. if c \<in> set (cb # cbs) then Some (the (row c) + the (ptb c) * of_int tx) else row c)"
    using Cons.prems v old by (auto simp: fun_eq_iff)
  have tot: "(t + v * of_int tx) + sum_list (map (\<lambda>c. the (ptb c) * of_int tx) cbs)
     = t + sum_list (map (\<lambda>c. the (ptb c) * of_int tx) (cb # cbs))"
    using v by simp
  show ?case unfolding step ih rows tot by (simp add: fun_eq_iff)
qed

lemma per_tx_values:
  "compute_per_tx_cost_blocks p ''PSP fees'' = Some (psp_fee p)"
  "compute_per_tx_cost_blocks p ''Process costs'' = Some (process_cost p)"
  "compute_per_tx_cost_blocks p ''Dev & maintenance'' = Some (dev_maintenance p)"
  "compute_per_tx_cost_blocks p ''Write-offs'' = Some (write_off_rate p * AVERAGE_BASKET_VALUE)"
  "compute_per_tx_cost_blocks p ''Dunning fee revenue'' = Some (- dunning_fee_per_tx p)"
  by (simp_all add: compute_per_tx_cost_blocks_def Let_def)

lemma sum_per_tx:
  "sum_list (map (\<lambda>cb. the (compute_per_tx_cost_blocks p cb) * of_int tx) cost_blocks) = blocks_total p tx"
  by (simp add: cost_blocks_def per_tx_values blocks_total_def algebra_simps)

lemma block_loop_cost_blocks:
  assumes "breakdown pm = Some zero_blocks"
  shows "block_loop (compute_per_tx_cost_blocks p) tx pm cost_blocks (breakdown, 0) =
           Inr (breakdown(pm \<mapsto> block_costs p tx), blocks_total p tx)"
proof -
  have rows: "(\<lambda>cb. if cb \<in> set cost_blocks
                 then Some (the (zero_blocks cb) + the (compute_per_tx_cost_blocks p cb) * of_int tx)
                 else zero_blocks cb) = block_costs p tx"
  proof
    fix cb
    show "(if cb \<in> set cost_blocks
                 then Some (the (zero_blocks cb) + the (compute_per_tx_cost_blocks p cb) * of_int tx)
                 else zero_blocks cb) = block_costs p tx cb"
    proof (cases "cb \<in> set cost_blocks")
      case True
      then obtain v where "compute_per_tx_cost_blocks p cb = Some v"
        using dom_per_tx [of p] by auto
      with True show ?thesis by (simp add: block_costs_def zero_blocks_eq)
    next
      case False
      then have "compute_per_tx_cost_blocks p cb = None"
        using dom_per_tx [of p] by auto
      with False show ?thesis by (simp add: block_costs_def zero_blocks_eq)
    qed
  qed
  have "set cost_blocks \<subseteq> dom zero_blocks"
    by (auto simp: zero_blocks_eq)
  then have "block_loop (compute_per_tx_cost_blocks p) tx pm cost_blocks (breakdown, 0) =
     Inr (breakdown(pm \<mapsto> (\<lambda>cb. if cb \<in> set cost_blocks
                 then Some (the (zero_blocks cb) + the (compute_per_tx_cost_blocks p cb) * of_int tx)
                 else zero_blocks cb)),
          0 + sum_list (map (\<lambda>cb. the (compute_per_tx_cost_blocks p cb) * of_int tx) cost_blocks))"
    using assms by (intro block_loop_eq) (simp_all add: dom_per_tx distinct_cost_blocks)
  then show ?thesis
    unfolding rows sum_per_tx by simp
qed

lemma method_loop_eq:
  assumes "distinct pms" "\<forall>pm\<in>set pms. breakdown pm = Some zero_blocks"
    "set pms \<subseteq> dom cost_params" "set pms \<subseteq> dom transactions_dict"
  shows "method_loop cost_params transactions_dict pms (rows, breakdown) =
           Inr (rows @ map (engine_row cost_params transactions_dict) pms,
                (\<lambda>k. if k \<in> set pms
                      then Some (block_costs (the (cost_params k)) (the (transactions_dict k)))
                      else breakdown k))"
  using assms
proof (induction pms arbitrary: rows breakdown)
  case Nil
  then show ?case by simp
next
  case (Cons pm pms)
  from Cons.prems obtain tx p where tx: "transactions_dict pm = Some tx" and p: "cost_params pm = Some p"
    by auto
  have bd: "breakdown pm = Some zero_blocks"
    using Cons.prems by simp
  let ?row = "\<lparr>payment_method = pm, transactions = tx, total_cost = blocks_total p tx,
          average_cost = (if tx > 0 then blocks_total p tx / of_int tx else 0)\<rparr>"
  let ?bd' = "breakdown(pm \<mapsto> block_costs p tx)"
  have step: "method_loop cost_params transactions_dict (pm # pms) (rows, breakdown) =
      method_loop cost_params transactions_dict pms (rows @ [?row], ?bd')"
    using tx p bd by (simp add: block_loop_cost_blocks py_div_def)
  have ih: "method_loop cost_params transactions_dict pms (rows @ [?row], ?bd') =
      Inr ((rows @ [?row]) @ map (engine_row cost_params transactions_dict) pms,
                (\<lambda>k. if k \<in> set pms
                      then Some (block_costs (the (cost_params k)) (the (transactions_dict k)))
                      else ?bd' k))"
    using Cons.prems by (intro Cons.IH) auto
  have row: "engine_row cost_params transactions_dict pm = ?row"
    using tx p by (simp add: engine_row_def)
  show ?case unfolding step ih using tx p
    by (auto simp: fun_eq_iff row)
qed

lemma compute_costs_eq:
  assumes "set PAYMENT_METHODS \<subseteq> dom cost_params" "set PAYMENT_METHODS \<subseteq> dom transactions_dict"
  shows "compute_costs cost_params transactions_dict =
           Inr (map (engine_row cost_params transactions_dict) PAYMENT_METHODS,
                (\<lambda>k. if k \<in> set PAYMENT_METHODS
                      then Some (block_costs (the (cost_params k)) (the (transactions_dict k)))
                      else None))"
proof -
  have "method_loop cost_params transactions_dict PAYMENT_METHODS ([], breakdown_init) =
           Inr ([] @ map (engine_row cost_params transactions_dict) PAYMENT_METHODS,
                (\<lambda>k. if k \<in> set PAYMENT_METHODS
                      then Some (block_costs (the (cost_params k)) (the (transactions_dict k)))
                      else breakdown_init k))"
    using assms by (intro method_loop_eq) (simp_all add: distinct_PAYMENT_METHODS breakdown_init_eq)
  moreover have "(\<lambda>k. if k \<in> set PAYMENT_METHODS
                      then Some (block_costs (the (cost_params k)) (the (transactions_dict k)))
                      else breakdown_init k) = (\<lambda>k. if k \<in> set PAYMENT_METHODS
                      then Some (block_costs (the (cost_params k)) (the (transactions_dict k)))
                      else None)"
    by (simp add: fun_eq_iff breakdown_init_eq)
  ultimately show ?thesis
    unfolding compute_costs_def by simp
qed

lemma dom_default_cost_params: "set PAYMENT_METHODS \<subseteq> dom default_cost_params"
  by (simp add: PAYMENT_METHODS_def default_cost_params_def)

lemma dom_baseline_transactions: "set PAYMENT_METHODS \<subseteq> dom baseline_transactions"
  by (simp add: PAYMENT_METHODS_def baseline_transactions_def)

lemma find_map_key:
  assumes "\<And>k. key (f k) = k" "pm \<in> set pms"
  shows "find (\<lambda>r. key r = pm) (map f pms) = Some (f pm)"
  using assms(2) by (induction pms) (auto simp: assms(1))


lemma payment_method_engine_row [simp]:
  "payment_method (engine_row cost_params transactions_dict pm) = pm"
  by (simp add: engine_row_def Let_def)

lemma row_of_engine:
  assumes "pm \<in> set PAYMENT_METHODS"
  shows "row_of (map (engine_row cost_params transactions_dict) PAYMENT_METHODS) pm =
           Some (engine_row cost_params transactions_dict pm)"
  unfolding row_of_def using assms by (intro find_map_key) simp_all



lemma loc_blocks_block_costs:
  "loc_blocks (block_costs p tx) cost_blocks =
     Inr [psp_fee p * of_int tx, process_cost p * of_int tx, dev_maintenance p * of_int tx,
          write_off_rate p * AVERAGE_BASKET_VALUE * of_int tx, - dunning_fee_per_tx p * of_int tx]"
  by (simp add: cost_blocks_def block_costs_def per_tx_values)


lemma dom_cost_params_upd: "set PAYMENT_METHODS \<subseteq> dom (default_cost_params(k \<mapsto> v))"
  using dom_default_cost_params by auto

lemma dom_transactions_upd: "set PAYMENT_METHODS \<subseteq> dom (baseline_transactions(k \<mapsto> v))"
  using dom_baseline_transactions by auto

text \<open>
  The engine on the script's default parameters and baseline quantities: the rows of
  ``Invoice (no fee)'' and of ``Visa''.
\<close>

lemma example_invoice:
  "\<exists>df breakdown r.
      compute_costs default_cost_params baseline_transactions = Inr (df, breakdown)
    \<and> row_of df ''Invoice (no fee)'' = Some r \<and> total_cost r = 900000 \<and> average_cost r = 15 / 10"
proof -
  have "''Invoice (no fee)'' \<in> set PAYMENT_METHODS"
    by (simp add: PAYMENT_METHODS_def)
  then have "row_of (map (engine_row default_cost_params baseline_transactions) PAYMENT_METHODS)
      ''Invoice (no fee)'' = Some (engine_row default_cost_params baseline_transactions ''Invoice (no fee)'')"
    by (rule row_of_engine)
  moreover have "total_cost (engine_row default_cost_params baseline_transactions ''Invoice (no fee)'') = 900000"
    by (simp add: engine_row_def blocks_total_def default_cost_params_def
      baseline_transactions_def AVERAGE_BASKET_VALUE_def)
  moreover have "average_cost (engine_row default_cost_params baseline_transactions ''Invoice (no fee)'') = 15 / 10"
    by (simp add: engine_row_def blocks_total_def default_cost_params_def
      baseline_transactions_def AVERAGE_BASKET_VALUE_def)
  ultimately show ?thesis
    using compute_costs_eq [OF dom_default_cost_params dom_baseline_transactions] by blast
qed

lemma example_visa:
  "\<exists>df breakdown r.
      compute_costs default_cost_params baseline_transactions = Inr (df, breakdown)
    \<and> row_of df ''Visa'' = Some r \<and> total_cost r = 25960 \<and> average_cost r = 118 / 1000"
proof -
  have "''Visa'' \<in> set PAYMENT_METHODS"
    by (simp add: PAYMENT_METHODS_def)
  then have "row_of (map (engine_row default_cost_params baseline_transactions) PAYMENT_METHODS)
      ''Visa'' = Some (engine_row default_cost_params baseline_transactions ''Visa'')"
    by (rule row_of_engine)
  moreover have "total_cost (engine_row default_cost_params baseline_transactions ''Visa'') = 25960"
    by (simp add: engine_row_def blocks_total_def default_cost_params_def
      baseline_transactions_def AVERAGE_BASKET_VALUE_def)
  moreover have "average_cost (engine_row default_cost_params baseline_transactions ''Visa'') = 118 / 1000"
    by (simp add: engine_row_def blocks_total_def default_cost_params_def
      baseline_transactions_def AVERAGE_BASKET_VALUE_def)
  ultimately show ?thesis
    using compute_costs_eq [OF dom_default_cost_params dom_baseline_transactions] by blast
qed

subsection \<open>Claims about the cost engine\<close>

text \<open>
  C1. For a payment method \<open>pm\<close> with cost parameters \<open>p\<close> and quantity \<open>tx\<close>, the
  per-transaction value of each of the five cost blocks is the fixed formula (PSP fees
  the fee, process costs the process cost, dev and maintenance its parameter, write-offs
  the write-off rate times the average basket value, dunning fee revenue the negated
  revenue), and the entry of the breakdown for each block is that value times \<open>tx\<close>;
  the breakdown row has exactly the five blocks.
\<close>

theorem per_unit_values_and_block_costs:
  assumes "set PAYMENT_METHODS \<subseteq> dom cost_params"
    and "set PAYMENT_METHODS \<subseteq> dom transactions_dict"
    and "pm \<in> set PAYMENT_METHODS"
    and "cost_params pm = Some p"
    and "transactions_dict pm = Some tx"
  shows "compute_per_tx_cost_blocks p ''PSP fees'' = Some (psp_fee p)
       \<and> compute_per_tx_cost_blocks p ''Process costs'' = Some (process_cost p)
       \<and> compute_per_tx_cost_blocks p ''Dev & maintenance'' = Some (dev_maintenance p)
       \<and> compute_per_tx_cost_blocks p ''Write-offs'' = Some (write_off_rate p * AVERAGE_BASKET_VALUE)
       \<and> compute_per_tx_cost_blocks p ''Dunning fee revenue'' = Some (- dunning_fee_per_tx p)
       \<and> (\<exists>df breakdown row.
             compute_costs cost_params transactions_dict = Inr (df, breakdown)
           \<and> breakdown pm = Some row
           \<and> row ''PSP fees'' = Some (psp_fee p * of_int tx)
           \<and> row ''Process costs'' = Some (process_cost p * of_int tx)
           \<and> row ''Dev & maintenance'' = Some (dev_maintenance p * of_int tx)
           \<and> row ''Write-offs'' = Some (write_off_rate p * AVERAGE_BASKET_VALUE * of_int tx)
           \<and> row ''Dunning fee revenue'' = Some (- dunning_fee_per_tx p * of_int tx)
           \<and> dom row = set cost_blocks)"
proof -
  have "dom (block_costs p tx) = set cost_blocks"
    using dom_per_tx [of p] by (auto simp: block_costs_def dom_def)
  then show ?thesis
    using assms(3-5)
    by (simp add: compute_costs_eq [OF assms(1,2)] per_tx_values block_costs_def)
qed

theorem per_unit_values_and_block_costs_witness:
  "compute_per_tx_cost_blocks
      \<lparr>psp_fee = 0, process_cost = 10 / 100, dev_maintenance = 10 / 100,
       write_off_rate = 8 / 1000, dunning_fee_per_tx = 30 / 100\<rparr> ''Write-offs'' = Some (16 / 10)
   \<and> (\<exists>df breakdown row.
         compute_costs default_cost_params baseline_transactions = Inr (df, breakdown)
       \<and> breakdown ''Invoice (no fee)'' = Some row
       \<and> row ''Write-offs'' = Some 960000
       \<and> row ''Dunning fee revenue'' = Some (- 180000))"
proof -
  have h1: "set PAYMENT_METHODS \<subseteq> dom default_cost_params"
    by (simp add: PAYMENT_METHODS_def default_cost_params_def)
  have h2: "set PAYMENT_METHODS \<subseteq> dom baseline_transactions"
    by (simp add: PAYMENT_METHODS_def baseline_transactions_def)
  have h3: "''Invoice (no fee)'' \<in> set PAYMENT_METHODS"
    by (simp add: PAYMENT_METHODS_def)
  have h4: "default_cost_params ''Invoice (no fee)'' =
      Some \<lparr>psp_fee = 0, process_cost = 10 / 100, dev_maintenance = 10 / 100,
       write_off_rate = 8 / 1000, dunning_fee_per_tx = 30 / 100\<rparr>"
    by (simp add: default_cost_params_def)
  have h5: "baseline_transactions ''Invoice (no fee)'' = Some 600000"
    by (simp add: baseline_transactions_def)
  show ?thesis
    using per_unit_values_and_block_costs [OF h1 h2 h3 h4 h5]
    by (auto simp: AVERAGE_BASKET_VALUE_def)
qed



subsection \<open>The scenario quantities\<close>


lemma truncation_unique:
  assumes "truncation_toward_zero x n"
  shows "n = py_int x"
proof (cases "x < 0")
  case True
  from assms have a: "\<bar>of_int n\<bar> \<le> \<bar>x\<bar>" "\<bar>x\<bar> < \<bar>of_int n\<bar> + 1" "0 \<le> of_int n * x"
    by (simp_all add: truncation_toward_zero_def)
  from a(3) True have "real_of_int n \<le> 0"
    by (simp add: zero_le_mult_iff)
  with a True have "x \<le> of_int n" "of_int n < x + 1"
    by linarith+
  then have "\<lceil>x\<rceil> = n"
    by (intro ceiling_unique) linarith+
  with True show ?thesis by (simp add: py_int_def)
next
  case False
  from assms have a: "\<bar>of_int n\<bar> \<le> \<bar>x\<bar>" "\<bar>x\<bar> < \<bar>of_int n\<bar> + 1" "0 \<le> of_int n * x"
    by (simp_all add: truncation_toward_zero_def)
  have "0 \<le> real_of_int n"
  proof (cases "x = 0")
    case True
    with a(1) show ?thesis by simp
  next
    case False
    with \<open>\<not> x < 0\<close> have "0 < x" by simp
    with a(3) show ?thesis by (simp add: zero_le_mult_iff)
  qed
  with a False have "of_int n \<le> x" "x < of_int n + 1"
    by linarith+
  then have "\<lfloor>x\<rfloor> = n"
    by (intro floor_unique) linarith+
  with False show ?thesis by (simp add: py_int_def)
qed

lemma py_int_examples: "py_int (21 / 4) = 5" "py_int (- 21 / 4) = - 5"
  by (simp_all add: py_int_def)

lemma py_int_of_int: "py_int (of_int n) = n"
  by (simp add: py_int_def)

lemma py_int_nonneg: "0 \<le> x \<Longrightarrow> 0 \<le> py_int x"
  by (simp add: py_int_def)

lemma baseline_tx_loop_eq:
  assumes "set pms \<subseteq> dom base"
  shows "baseline_tx_loop base pms d = Inr (\<lambda>k. if k \<in> set pms then base k else d k)"
  using assms
proof (induction pms arbitrary: d)
  case Nil
  then show ?case by simp
next
  case (Cons pm pms)
  then obtain q where q: "base pm = Some q" by auto
  have "baseline_tx_loop base pms (d(pm \<mapsto> q)) =
      Inr (\<lambda>k. if k \<in> set pms then base k else (d(pm \<mapsto> q)) k)"
    using Cons.prems by (intro Cons.IH) simp
  then show ?case using q by (auto simp: fun_eq_iff)
qed

lemma scenario_tx_loop_eq:
  assumes "set pms \<subseteq> dom base_tx" "set pms \<subseteq> dom relative_changes"
  shows "scenario_tx_loop base_tx growth_factor relative_changes pms d =
     Inr (\<lambda>k. if k \<in> set pms
               then Some (py_int (of_int (the (base_tx k)) * growth_factor
                                    * (1 + the (relative_changes k) / 100)))
               else d k)"
  using assms
proof (induction pms arbitrary: d)
  case Nil
  then show ?case by simp
next
  case (Cons pm pms)
  then obtain q c where q: "base_tx pm = Some q" and c: "relative_changes pm = Some c"
    by auto
  let ?d = "d(pm \<mapsto> py_int (of_int q * growth_factor * (1 + c / 100)))"
  have "scenario_tx_loop base_tx growth_factor relative_changes pms ?d =
     Inr (\<lambda>k. if k \<in> set pms
               then Some (py_int (of_int (the (base_tx k)) * growth_factor
                                    * (1 + the (relative_changes k) / 100)))
               else ?d k)"
    using Cons.prems by (intro Cons.IH) simp_all
  then show ?case using q c by (auto simp: fun_eq_iff Let_def)
qed

lemma scenario_tx_eq:
  assumes "set PAYMENT_METHODS \<subseteq> dom base_tx" "set PAYMENT_METHODS \<subseteq> dom relative_changes"
  shows "scenario_tx base_tx growth_factor relative_changes =
     Inr (\<lambda>k. if k \<in> set PAYMENT_METHODS
               then Some (py_int (of_int (the (base_tx k)) * growth_factor
                                    * (1 + the (relative_changes k) / 100)))
               else None)"
  unfolding scenario_tx_def using assms by (simp add: scenario_tx_loop_eq)

lemma baseline_tx_eq:
  assumes "set PAYMENT_METHODS \<subseteq> dom base"
  shows "baseline_tx base = Inr (base |` set PAYMENT_METHODS)"
  unfolding baseline_tx_def using assms
  by (simp add: baseline_tx_loop_eq restrict_map_def)

text \<open>
  C10. For a baseline quantity that is not negative, a growth factor that is not negative
  and a relative change of at least \<open>-100\<close>, the scenario quantity is not negative.
\<close>

theorem scenario_quantity_nonneg:
  assumes "set PAYMENT_METHODS \<subseteq> dom base_tx"
    and "set PAYMENT_METHODS \<subseteq> dom relative_changes"
    and "pm \<in> set PAYMENT_METHODS"
    and "base_tx pm = Some q"
    and "relative_changes pm = Some change"
    and "0 \<le> q" and "0 \<le> growth_factor" and "- 100 \<le> change"
  shows "\<exists>d n. scenario_tx base_tx growth_factor relative_changes = Inr d
       \<and> d pm = Some n \<and> 0 \<le> n"
proof -
  have "0 \<le> of_int q * growth_factor * (1 + change / 100)"
    using assms(6-8) by (intro mult_nonneg_nonneg) simp_all
  then show ?thesis
    using assms(3-5) by (simp add: scenario_tx_eq [OF assms(1,2)] py_int_nonneg)
qed

theorem scenario_quantity_nonneg_witness:
  "\<exists>d n. scenario_tx (baseline_transactions(''Visa'' \<mapsto> 7)) (3 / 2)
             (default_relative_changes(''Visa'' \<mapsto> - 50)) = Inr d
       \<and> d ''Visa'' = Some n \<and> 0 \<le> n"
proof -
  have h1: "set PAYMENT_METHODS \<subseteq> dom (baseline_transactions(''Visa'' \<mapsto> 7))"
    by (simp add: PAYMENT_METHODS_def baseline_transactions_def)
  have h2: "set PAYMENT_METHODS \<subseteq> dom (default_relative_changes(''Visa'' \<mapsto> - 50))"
    by (simp add: PAYMENT_METHODS_def default_relative_changes_def)
  have h3: "''Visa'' \<in> set PAYMENT_METHODS"
    by (simp add: PAYMENT_METHODS_def)
  have h4: "(baseline_transactions(''Visa'' \<mapsto> 7)) ''Visa'' = Some 7"
    by simp
  have h5: "(default_relative_changes(''Visa'' \<mapsto> - 50)) ''Visa'' = Some (- 50)"
    by simp
  have h6: "(0::int) \<le> 7" and h7: "(0::real) \<le> 3 / 2" and h8: "- 100 \<le> (- 50::real)"
    by simp_all
  show ?thesis
    by (rule scenario_quantity_nonneg [OF h1 h2 h3 h4 h5 h6 h7 h8])
qed

subsection \<open>The comparison table\<close>

text \<open>
  On frames whose index is \<open>PAYMENT_METHODS\<close>, as the frames of the engine are, the
  alignment on labels pairs the rows by position and leaves no \<open>NaN\<close>.
\<close>

lemma row_of_Cons:
  "row_of (r # rs) l = (if payment_method r = l then Some r else row_of rs l)"
  by (simp add: row_of_def)

lemma row_of_index:
  assumes "distinct (map payment_method df)"
  shows "map (row_of df) (map payment_method df) = map Some df"
  using assms
proof (induction df)
  case Nil
  then show ?case by simp
next
  case (Cons r rs)
  then have "map (row_of (r # rs)) (map payment_method rs) = map (row_of rs) (map payment_method rs)"
    by (auto simp: row_of_Cons)
  with Cons show ?case by (simp add: row_of_Cons)
qed

lemma row_of_PAYMENT_METHODS:
  assumes "map payment_method df = PAYMENT_METHODS"
  shows "map (row_of df) PAYMENT_METHODS = map Some df"
  using row_of_index [of df] assms distinct_PAYMENT_METHODS by simp


lemma comparison_entry_rows:
  assumes "row_of baseline_df pm = Some b" "row_of scenario_df pm = Some s"
  shows "comparison_entry baseline_df scenario_df pm =
     \<lparr>cmp_label = pm,
      cmp_baseline_transactions = Some (transactions b),
      cmp_scenario_transactions = Some (transactions s),
      cmp_baseline_cost = Some (total_cost b),
      cmp_scenario_cost = Some (total_cost s),
      cmp_cost_delta = Some (total_cost s - total_cost b),
      cmp_cost_delta_pct =
        Some (if total_cost b > 0 then (total_cost s - total_cost b) / total_cost b * 100 else 0)\<rparr>"
  using assms
  by (simp add: comparison_entry_def Let_def nan_minus_def nan_div_def nan_times_def
      nan_positive_def np_where_def np_div_def)

lemma comparison_df_index:
  assumes "map payment_method baseline_df = PAYMENT_METHODS"
    and "map payment_method scenario_df = PAYMENT_METHODS"
  shows "comparison_df baseline_df scenario_df =
     map (\<lambda>(b, s). \<lparr>cmp_label = payment_method b,
      cmp_baseline_transactions = Some (transactions b),
      cmp_scenario_transactions = Some (transactions s),
      cmp_baseline_cost = Some (total_cost b),
      cmp_scenario_cost = Some (total_cost s),
      cmp_cost_delta = Some (total_cost s - total_cost b),
      cmp_cost_delta_pct =
        Some (if total_cost b > 0 then (total_cost s - total_cost b) / total_cost b * 100 else 0)\<rparr>)
      (zip baseline_df scenario_df)"
proof -
  have len: "length baseline_df = length PAYMENT_METHODS" "length scenario_df = length PAYMENT_METHODS"
    using assms by (metis length_map)+
  have rb: "map (row_of baseline_df) PAYMENT_METHODS = map Some baseline_df"
    and rs: "map (row_of scenario_df) PAYMENT_METHODS = map Some scenario_df"
    using assms by (simp_all add: row_of_PAYMENT_METHODS)
  show ?thesis
  proof (rule nth_equalityI)
    show "length (comparison_df baseline_df scenario_df) = length
      (map (\<lambda>(b, s). \<lparr>cmp_label = payment_method b,
      cmp_baseline_transactions = Some (transactions b),
      cmp_scenario_transactions = Some (transactions s),
      cmp_baseline_cost = Some (total_cost b),
      cmp_scenario_cost = Some (total_cost s),
      cmp_cost_delta = Some (total_cost s - total_cost b),
      cmp_cost_delta_pct =
        Some (if total_cost b > 0 then (total_cost s - total_cost b) / total_cost b * 100 else 0)\<rparr>)
      (zip baseline_df scenario_df))"
      using len by (simp add: comparison_df_def)
  next
    fix i
    assume "i < length (comparison_df baseline_df scenario_df)"
    then have i: "i < length PAYMENT_METHODS"
      by (simp add: comparison_df_def)
    have b: "row_of baseline_df (PAYMENT_METHODS ! i) = Some (baseline_df ! i)"
      using arg_cong [OF rb, of "\<lambda>xs. xs ! i"] i len by simp
    have s: "row_of scenario_df (PAYMENT_METHODS ! i) = Some (scenario_df ! i)"
      using arg_cong [OF rs, of "\<lambda>xs. xs ! i"] i len by simp
    have l: "payment_method (baseline_df ! i) = PAYMENT_METHODS ! i"
      using arg_cong [OF assms(1), of "\<lambda>xs. xs ! i"] i len by simp
    show "comparison_df baseline_df scenario_df ! i =
      map (\<lambda>(b, s). \<lparr>cmp_label = payment_method b,
      cmp_baseline_transactions = Some (transactions b),
      cmp_scenario_transactions = Some (transactions s),
      cmp_baseline_cost = Some (total_cost b),
      cmp_scenario_cost = Some (total_cost s),
      cmp_cost_delta = Some (total_cost s - total_cost b),
      cmp_cost_delta_pct =
        Some (if total_cost b > 0 then (total_cost s - total_cost b) / total_cost b * 100 else 0)\<rparr>)
      (zip baseline_df scenario_df) ! i"
      using i len by (simp add: comparison_df_def comparison_entry_rows [OF b s] l)
  qed
qed

lemma sum_list_zip_fst:
  "length xs = length ys \<Longrightarrow> sum_list (map (\<lambda>(x, y). f x) (zip xs ys)) = sum_list (map f xs)"
  by (induction xs ys rule: list_induct2) simp_all

lemma sum_list_zip_snd:
  "length xs = length ys \<Longrightarrow> sum_list (map (\<lambda>(x, y). g y) (zip xs ys)) = sum_list (map g ys)"
  by (induction xs ys rule: list_induct2) simp_all

lemma sum_list_zip_diff:
  "length xs = length ys \<Longrightarrow>
   sum_list (map (\<lambda>(x, y). g y - f x) (zip xs ys)) = sum_list (map g ys) - sum_list (map f (xs::'a list)) "
  for f :: "'a \<Rightarrow> real"
  by (induction xs ys rule: list_induct2) simp_all

text \<open>
  The summary frames of the engine for the default parameters: on the baseline
  quantities, and on the baseline quantities with no ``Visa'' transaction.
\<close>

lemma default_baseline_frame:
  "map (engine_row default_cost_params baseline_transactions) PAYMENT_METHODS =
     [\<lparr>payment_method = ''Invoice (no fee)'', transactions = 600000,
       total_cost = 900000, average_cost = 15 / 10\<rparr>,
      \<lparr>payment_method = ''Installments'', transactions = 40000,
       total_cost = 72000, average_cost = 18 / 10\<rparr>,
      \<lparr>payment_method = ''Prepayment'', transactions = 30000,
       total_cost = 3900, average_cost = 13 / 100\<rparr>,
      \<lparr>payment_method = ''TWINT'', transactions = 350000,
       total_cost = 42000, average_cost = 12 / 100\<rparr>,
      \<lparr>payment_method = ''Visa'', transactions = 220000,
       total_cost = 25960, average_cost = 118 / 1000\<rparr>,
      \<lparr>payment_method = ''Mastercard'', transactions = 140000,
       total_cost = 16520, average_cost = 118 / 1000\<rparr>,
      \<lparr>payment_method = ''PayPal'', transactions = 80000,
       total_cost = 10400, average_cost = 13 / 100\<rparr>]"
  by (simp add: PAYMENT_METHODS_def engine_row_def blocks_total_def
      default_cost_params_def baseline_transactions_def AVERAGE_BASKET_VALUE_def)

lemma no_visa_frame:
  "map (engine_row default_cost_params (baseline_transactions(''Visa'' \<mapsto> 0))) PAYMENT_METHODS =
     [\<lparr>payment_method = ''Invoice (no fee)'', transactions = 600000,
       total_cost = 900000, average_cost = 15 / 10\<rparr>,
      \<lparr>payment_method = ''Installments'', transactions = 40000,
       total_cost = 72000, average_cost = 18 / 10\<rparr>,
      \<lparr>payment_method = ''Prepayment'', transactions = 30000,
       total_cost = 3900, average_cost = 13 / 100\<rparr>,
      \<lparr>payment_method = ''TWINT'', transactions = 350000,
       total_cost = 42000, average_cost = 12 / 100\<rparr>,
      \<lparr>payment_method = ''Visa'', transactions = 0,
       total_cost = 0, average_cost = 0\<rparr>,
      \<lparr>payment_method = ''Mastercard'', transactions = 140000,
       total_cost = 16520, average_cost = 118 / 1000\<rparr>,
      \<lparr>payment_method = ''PayPal'', transactions = 80000,
       total_cost = 10400, average_cost = 13 / 100\<rparr>]"
  by (simp add: PAYMENT_METHODS_def engine_row_def blocks_total_def
      default_cost_params_def baseline_transactions_def AVERAGE_BASKET_VALUE_def)

text \<open>
  C5. For a payment method with baseline row \<open>b\<close> and scenario row \<open>s\<close>, the row
  of the comparison table has the cost delta \<open>total_cost s - total_cost b\<close>, and the
  cost delta in percent is the delta divided by the baseline total times 100 when the
  baseline total is positive, and exactly \<open>0\<close> otherwise, whatever the scenario total.
\<close>

theorem comparison_row_delta:
  assumes "pm \<in> set PAYMENT_METHODS"
    and "row_of baseline_df pm = Some b"
    and "row_of scenario_df pm = Some s"
  shows "\<exists>row. find (\<lambda>r. cmp_label r = pm) (comparison_df baseline_df scenario_df) = Some row
       \<and> cmp_baseline_cost row = Some (total_cost b)
       \<and> cmp_scenario_cost row = Some (total_cost s)
       \<and> cmp_cost_delta row = Some (total_cost s - total_cost b)
       \<and> cmp_cost_delta_pct row =
           Some (if total_cost b > 0
                 then (total_cost s - total_cost b) / total_cost b * 100 else 0)"
proof -
  have "find (\<lambda>r. cmp_label r = pm) (comparison_df baseline_df scenario_df) =
      Some (comparison_entry baseline_df scenario_df pm)"
    unfolding comparison_df_def using assms(1)
    by (intro find_map_key) (simp_all add: comparison_entry_def Let_def)
  then show ?thesis
    by (simp add: comparison_entry_rows [OF assms(2,3)])
qed

theorem comparison_row_delta_witness:
  "\<exists>bdf bbd sdf sbd row.
      compute_costs default_cost_params (baseline_transactions(''Visa'' \<mapsto> 0)) = Inr (bdf, bbd)
    \<and> compute_costs default_cost_params baseline_transactions = Inr (sdf, sbd)
    \<and> find (\<lambda>r. cmp_label r = ''Visa'') (comparison_df bdf sdf) = Some row
    \<and> cmp_baseline_cost row = Some 0
    \<and> cmp_scenario_cost row = Some 25960
    \<and> cmp_cost_delta row = Some 25960
    \<and> cmp_cost_delta_pct row = Some 0"
proof -
  let ?bdf = "map (engine_row default_cost_params (baseline_transactions(''Visa'' \<mapsto> 0))) PAYMENT_METHODS"
  let ?sdf = "map (engine_row default_cost_params baseline_transactions) PAYMENT_METHODS"
  let ?b = "\<lparr>payment_method = ''Visa'', transactions = 0, total_cost = 0, average_cost = 0\<rparr>"
  let ?s = "\<lparr>payment_method = ''Visa'', transactions = 220000,
       total_cost = 25960, average_cost = 118 / 1000\<rparr>"
  have h1: "''Visa'' \<in> set PAYMENT_METHODS"
    by (simp add: PAYMENT_METHODS_def)
  have h2: "row_of ?bdf ''Visa'' = Some ?b"
    unfolding no_visa_frame by (simp add: row_of_def)
  have h3: "row_of ?sdf ''Visa'' = Some ?s"
    unfolding default_baseline_frame by (simp add: row_of_def)
  have cb: "compute_costs default_cost_params (baseline_transactions(''Visa'' \<mapsto> 0)) =
      Inr (?bdf, \<lambda>k. if k \<in> set PAYMENT_METHODS
                      then Some (block_costs (the (default_cost_params k))
                                   (the ((baseline_transactions(''Visa'' \<mapsto> 0)) k)))
                      else None)"
    by (rule compute_costs_eq [OF dom_default_cost_params dom_transactions_upd])
  have cs: "compute_costs default_cost_params baseline_transactions =
      Inr (?sdf, \<lambda>k. if k \<in> set PAYMENT_METHODS
                      then Some (block_costs (the (default_cost_params k))
                                   (the (baseline_transactions k)))
                      else None)"
    by (rule compute_costs_eq [OF dom_default_cost_params dom_baseline_transactions])
  from comparison_row_delta [OF h1 h2 h3]
  obtain row where "find (\<lambda>r. cmp_label r = ''Visa'') (comparison_df ?bdf ?sdf) = Some row"
    "cmp_baseline_cost row = Some 0" "cmp_scenario_cost row = Some 25960"
    "cmp_cost_delta row = Some 25960" "cmp_cost_delta_pct row = Some 0"
    by auto
  with cb cs show ?thesis by blast
qed

text \<open>
  C6. The TOTAL row of the comparison table is computed from the grand totals: its costs
  are the sums of the baseline and of the scenario total costs, and its cost delta in
  percent is the difference of these two sums divided by the baseline sum times 100 when
  the baseline sum is positive, and \<open>0\<close> otherwise. (In the witness the per-row
  percentages add up to \<open>-100\<close>, the TOTAL row has about \<open>-2.4\<close>.)
\<close>

theorem total_row_from_grand_totals:
  assumes "map payment_method baseline_df = PAYMENT_METHODS"
    and "map payment_method scenario_df = PAYMENT_METHODS"
  shows "tot_baseline_cost (total_row (comparison_df baseline_df scenario_df)) =
           baseline_total_cost baseline_df
       \<and> tot_scenario_cost (total_row (comparison_df baseline_df scenario_df)) =
           scenario_total_cost scenario_df
       \<and> tot_cost_delta (total_row (comparison_df baseline_df scenario_df)) =
           scenario_total_cost scenario_df - baseline_total_cost baseline_df
       \<and> tot_cost_delta_pct (total_row (comparison_df baseline_df scenario_df)) =
           Some (if baseline_total_cost baseline_df > 0
                 then (scenario_total_cost scenario_df - baseline_total_cost baseline_df)
                        / baseline_total_cost baseline_df * 100
                 else 0)"
proof -
  have len: "length baseline_df = length scenario_df"
    using assms by (metis length_map)
  note cmp = comparison_df_index [OF assms]
  have b: "nansum (map cmp_baseline_cost (comparison_df baseline_df scenario_df)) =
      baseline_total_cost baseline_df"
    unfolding cmp baseline_total_cost_def using len
    by (simp add: nansum_def comp_def case_prod_unfold sum_list_zip_fst [unfolded case_prod_unfold])
  have s: "nansum (map cmp_scenario_cost (comparison_df baseline_df scenario_df)) =
      scenario_total_cost scenario_df"
    unfolding cmp scenario_total_cost_def using len
    by (simp add: nansum_def comp_def case_prod_unfold sum_list_zip_snd [unfolded case_prod_unfold])
  have d: "nansum (map cmp_cost_delta (comparison_df baseline_df scenario_df)) =
      scenario_total_cost scenario_df - baseline_total_cost baseline_df"
    unfolding cmp scenario_total_cost_def baseline_total_cost_def using len
    by (simp add: nansum_def comp_def case_prod_unfold sum_list_zip_diff [unfolded case_prod_unfold])
  show ?thesis
    by (simp add: total_row_def b s d np_div_def nan_times_def)
qed

theorem total_row_from_grand_totals_witness:
  "\<exists>bdf bbd sdf sbd.
      compute_costs default_cost_params baseline_transactions = Inr (bdf, bbd)
    \<and> compute_costs default_cost_params (baseline_transactions(''Visa'' \<mapsto> 0)) = Inr (sdf, sbd)
    \<and> tot_baseline_cost (total_row (comparison_df bdf sdf)) = 1070780
    \<and> tot_scenario_cost (total_row (comparison_df bdf sdf)) = 1044820
    \<and> tot_cost_delta (total_row (comparison_df bdf sdf)) = - 25960
    \<and> tot_cost_delta_pct (total_row (comparison_df bdf sdf)) = Some (- 2596000 / 1070780)
    \<and> nansum (map cmp_cost_delta_pct (comparison_df bdf sdf)) = - 100"
proof -
  let ?sdf = "map (engine_row default_cost_params (baseline_transactions(''Visa'' \<mapsto> 0))) PAYMENT_METHODS"
  let ?bdf = "map (engine_row default_cost_params baseline_transactions) PAYMENT_METHODS"
  have h1: "map payment_method ?bdf = PAYMENT_METHODS"
    by (simp add: comp_def)
  have h2: "map payment_method ?sdf = PAYMENT_METHODS"
    by (simp add: comp_def)
  have b: "baseline_total_cost ?bdf = 1070780"
    unfolding default_baseline_frame by (simp add: baseline_total_cost_def)
  have s: "scenario_total_cost ?sdf = 1044820"
    unfolding no_visa_frame by (simp add: scenario_total_cost_def)
  have cs: "compute_costs default_cost_params (baseline_transactions(''Visa'' \<mapsto> 0)) =
      Inr (?sdf, \<lambda>k. if k \<in> set PAYMENT_METHODS
                      then Some (block_costs (the (default_cost_params k))
                                   (the ((baseline_transactions(''Visa'' \<mapsto> 0)) k)))
                      else None)"
    by (rule compute_costs_eq [OF dom_default_cost_params dom_transactions_upd])
  have cb: "compute_costs default_cost_params baseline_transactions =
      Inr (?bdf, \<lambda>k. if k \<in> set PAYMENT_METHODS
                      then Some (block_costs (the (default_cost_params k))
                                   (the (baseline_transactions k)))
                      else None)"
    by (rule compute_costs_eq [OF dom_default_cost_params dom_baseline_transactions])
  have rows: "nansum (map cmp_cost_delta_pct (comparison_df ?bdf ?sdf)) = - 100"
    unfolding comparison_df_index [OF h1 h2]
    unfolding default_baseline_frame no_visa_frame
    by (simp add: nansum_def)
  have "tot_baseline_cost (total_row (comparison_df ?bdf ?sdf)) = 1070780
    \<and> tot_scenario_cost (total_row (comparison_df ?bdf ?sdf)) = 1044820
    \<and> tot_cost_delta (total_row (comparison_df ?bdf ?sdf)) = - 25960
    \<and> tot_cost_delta_pct (total_row (comparison_df ?bdf ?sdf)) = Some (- 2596000 / 1070780)"
    using total_row_from_grand_totals [OF h1 h2] unfolding b s by simp
  with cb cs rows show ?thesis by blast
qed

subsection \<open>The chart shares\<close>












section \<open>Properties in binary64 arithmetic\<close>

subsection \<open>Rounding\<close>

lemma round_half_even_of_int: "round_half_even (of_int m) = m"
  by (simp add: round_half_even_def)


lemma round_half_even_bounds:
  "of_int (round_half_even r) \<le> r + 1 / 2" "r - 1 / 2 \<le> of_int (round_half_even r)"
proof -
  define f where "f = \<lfloor>r\<rfloor>"
  have fl: "of_int f \<le> r" "r < of_int f + 1" unfolding f_def by linarith+
  have "(r - of_int f \<le> 1 / 2 \<and> round_half_even r = f)
      \<or> (1 / 2 \<le> r - of_int f \<and> round_half_even r = f + 1)"
    unfolding round_half_even_def Let_def f_def [symmetric] by auto
  then consider "r - of_int f \<le> 1 / 2" "round_half_even r = f"
    | "1 / 2 \<le> r - of_int f" "round_half_even r = f + 1" by blast
  then have "of_int (round_half_even r) \<le> r + 1 / 2 \<and> r - 1 / 2 \<le> of_int (round_half_even r)"
  proof cases
    case 1
    then show ?thesis using fl by simp
  next
    case 2
    have "real_of_int (f + 1) = of_int f + 1" by simp
    with 2 fl show ?thesis by linarith
  qed
  then show "of_int (round_half_even r) \<le> r + 1 / 2" "r - 1 / 2 \<le> of_int (round_half_even r)"
    by simp_all
qed

lemma round_half_even_mono_int:
  assumes "of_int K \<le> r"
  shows "K \<le> round_half_even r"
proof -
  have "K \<le> \<lfloor>r\<rfloor>" using assms by (simp add: le_floor_iff)
  then show ?thesis by (auto simp: round_half_even_def Let_def)
qed

lemma round_half_even_le_int:
  assumes "r \<le> of_int K"
  shows "round_half_even r \<le> K"
proof (cases "r = of_int K")
  case True
  then show ?thesis by (simp add: round_half_even_of_int)
next
  case False
  with assms have "r < of_int K" by simp
  then have "\<lfloor>r\<rfloor> < K" by (simp add: floor_less_iff)
  then show ?thesis by (auto simp: round_half_even_def Let_def)
qed

lemma find_binade_range: "- 1022 \<le> find_binade k a" "find_binade k a \<le> int k - 1022"
  by (induction k) auto

lemma find_binade_lower:
  "- 1022 < find_binade k a \<Longrightarrow> 2 powi (find_binade k a) \<le> a"
  by (induction k) (auto split: if_splits)

lemma find_binade_upper:
  "find_binade k a < int k - 1022 \<Longrightarrow> a < 2 powi (find_binade k a + 1)"
proof (induction k)
  case 0
  then show ?case by simp
next
  case (Suc k)
  show ?case
  proof (cases "2 powi (int (Suc k) - 1022) \<le> a")
    case True
    with Suc.prems show ?thesis by simp
  next
    case False
    then have eq: "find_binade (Suc k) a = find_binade k a" by simp
    show ?thesis
    proof (cases "find_binade k a < int k - 1022")
      case True
      then show ?thesis unfolding eq by (rule Suc.IH)
    next
      case False
      with find_binade_range(2) [of k a] have e: "find_binade k a + 1 = int (Suc k) - 1022" by simp
      show ?thesis
        unfolding eq e using \<open>\<not> 2 powi (int (Suc k) - 1022) \<le> a\<close> by simp
    qed
  qed
qed

lemma find_binade_eq:
  assumes "2 powi n \<le> a" "a < 2 powi (n + 1) \<or> n = int k - 1022" "- 1022 \<le> n" "n \<le> int k - 1022"
  shows "find_binade k a = n"
proof (rule ccontr)
  assume ne: "find_binade k a \<noteq> n"
  let ?b = "find_binade k a"
  show False
  proof (cases "?b < n")
    case True
    then have "?b < int k - 1022" using assms(4) by simp
    then have "a < 2 powi (?b + 1)" by (rule find_binade_upper)
    also have "\<dots> \<le> 2 powi n" using True by (intro power_int_increasing) simp_all
    finally show False using assms(1) by simp
  next
    case False
    with ne have gt: "n < ?b" by simp
    then have "- 1022 < ?b" using assms(3) by simp
    then have "2 powi ?b \<le> a" by (rule find_binade_lower)
    moreover have "n < int k - 1022" using gt find_binade_range(2) [of k a] by simp
    with assms(2) have "a < 2 powi (n + 1)" by simp
    moreover have "(2::real) powi (n + 1) \<le> 2 powi ?b" using gt by (intro power_int_increasing) simp_all
    ultimately show False by simp
  qed
qed

lemma find_binade_small:
  assumes "a < 2 powi (- 1021)"
  shows "find_binade k a = - 1022"
proof (rule ccontr)
  assume "find_binade k a \<noteq> - 1022"
  with find_binade_range(1) [of k a] have gt: "- 1022 < find_binade k a" by simp
  then have "2 powi (find_binade k a) \<le> a" by (rule find_binade_lower)
  moreover have "(2::real) powi (- 1021) \<le> 2 powi (find_binade k a)"
    using gt by (intro power_int_increasing) simp_all
  ultimately show False using assms by simp
qed

lemma binade_eq:
  assumes "2 powi n \<le> \<bar>x\<bar>" "\<bar>x\<bar> < 2 powi (n + 1) \<or> n = 1023" "- 1022 \<le> n" "n \<le> 1023"
  shows "binade x = n"
  unfolding binade_def using assms by (intro find_binade_eq) simp_all

lemma binade_0: "binade 0 = - 1022"
  unfolding binade_def by (rule find_binade_small) simp

lemma round64_0: "round64 0 = Finite 0"
  by (simp add: round64_def round_half_even_def)

lemma round64_eval:
  assumes "binade x = n"
    and "round_half_even (x / 2 powi (n - 52)) = m"
    and "\<bar>of_int m * 2 powi (n - 52)\<bar> < (2::real) ^ 1024"
  shows "round64 x = Finite (of_int m * 2 powi (n - 52))"
  using assms(3) unfolding round64_def assms(1) Let_def assms(2) by auto

text \<open>
  Integers up to \<open>2 ^ 53\<close> are doubles, a real from \<open>2 ^ 1024\<close> on overflows, and
  a finite result is at most \<^const>\<open>max_double\<close>.
\<close>

lemma round64_int:
  assumes "\<bar>q\<bar> \<le> 2 ^ 53"
  shows "round64 (of_int q) = Finite (of_int q)"
proof (cases "q = 0")
  case True
  then show ?thesis by (simp add: round64_0)
next
  case False
  define n where "n = binade (real_of_int q)"
  have a1: "1 \<le> \<bar>real_of_int q\<bar>" using False by (simp flip: of_int_abs add: int_one_le_iff_zero_less)
  have a53: "\<bar>real_of_int q\<bar> \<le> 2 ^ 53"
    using assms by (metis of_int_abs of_int_le_numeral_power_cancel_iff)
  have rng: "- 1022 \<le> n" "n \<le> 1023"
    unfolding n_def binade_def using find_binade_range [of 2045 "\<bar>real_of_int q\<bar>"] by simp_all
  have n0: "0 \<le> n"
  proof (rule ccontr)
    assume "\<not> 0 \<le> n"
    then have "n < 1023" by simp
    then have "\<bar>real_of_int q\<bar> < 2 powi (n + 1)"
      unfolding n_def binade_def by (intro find_binade_upper) simp
    also have "\<dots> \<le> 2 powi 0" using \<open>\<not> 0 \<le> n\<close> by (intro power_int_increasing) simp_all
    finally show False using a1 by simp
  qed
  then have lo: "2 powi n \<le> \<bar>real_of_int q\<bar>"
    unfolding n_def binade_def by (intro find_binade_lower) simp
  have n53: "n \<le> 53"
  proof (rule ccontr)
    assume "\<not> n \<le> 53"
    then have "(2::real) powi 54 \<le> 2 powi n" by (intro power_int_increasing) simp_all
    with lo a53 show False by simp
  qed
  have "\<exists>j. real_of_int q / 2 powi (n - 52) = of_int j"
  proof (cases "n \<le> 52")
    case True
    then have "real_of_int q / 2 powi (n - 52) = real_of_int q * 2 ^ nat (52 - n)"
      by (simp add: power_int_def field_simps)
    also have "\<dots> = of_int (q * 2 ^ nat (52 - n))" by simp
    finally show ?thesis by blast
  next
    case False
    with n53 have n: "n = 53" by simp
    with lo a53 have "\<bar>real_of_int q\<bar> = 2 ^ 53" by simp
    then have "real_of_int q = 2 ^ 53 \<or> real_of_int q = - (2 ^ 53)" by linarith
    then have "real_of_int q / 2 powi (n - 52) = of_int (2 ^ 52) \<or>
               real_of_int q / 2 powi (n - 52) = of_int (- (2 ^ 52))"
      unfolding n by auto
    then show ?thesis by blast
  qed
  then obtain j where j: "real_of_int q / 2 powi (n - 52) = of_int j" by blast
  then have val: "of_int j * 2 powi (n - 52) = real_of_int q" by (simp add: field_simps)
  have "round64 (of_int q) = Finite (of_int j * 2 powi (n - 52))"
  proof (rule round64_eval)
    show "binade (real_of_int q) = n" by (simp add: n_def)
    show "round_half_even (real_of_int q / 2 powi (n - 52)) = j"
      unfolding j by (rule round_half_even_of_int)
    show "\<bar>real_of_int j * 2 powi (n - 52)\<bar> < 2 ^ 1024"
      unfolding val using a53 by simp
  qed
  then show ?thesis unfolding val .
qed

lemma round64_overflow:
  assumes "2 ^ 1024 \<le> x"
  shows "round64 x = PlusInf"
proof -
  have "(0::real) < 2 ^ 1024" by simp
  with assms have x: "\<bar>x\<bar> = x" by linarith
  have b: "binade x = 1023"
  proof (rule binade_eq)
    have "(2::real) powi 1023 \<le> 2 ^ 1024" by simp
    then show "2 powi 1023 \<le> \<bar>x\<bar>" using assms x by linarith
  qed simp_all
  have "of_int (2 ^ 53) \<le> x / 2 powi (1023 - 52)"
    using assms by (simp add: field_simps flip: power_add)
  then have "2 ^ 53 \<le> round_half_even (x / 2 powi (1023 - 52))"
    by (rule round_half_even_mono_int)
  then have "real_of_int (2 ^ 53) \<le> of_int (round_half_even (x / 2 powi (1023 - 52)))"
    by (simp only: of_int_le_iff)
  then have "real_of_int (2 ^ 53) * 2 powi (1023 - 52) \<le>
      of_int (round_half_even (x / 2 powi (1023 - 52))) * 2 powi (1023 - 52)"
    by (intro mult_right_mono) simp_all
  moreover have "real_of_int (2 ^ 53) * 2 powi (1023 - 52) = 2 ^ 1024"
    by (simp flip: power_add)
  ultimately show ?thesis
    unfolding round64_def b Let_def by simp
qed

lemma round64_numeral:
  "(numeral n :: int) \<le> 2 ^ 53 \<Longrightarrow> round64 (numeral n) = Finite (numeral n)"
  using round64_int [of "numeral n"] by simp

lemma round64_neg_numeral:
  "(numeral n :: int) \<le> 2 ^ 53 \<Longrightarrow> round64 (- numeral n) = Finite (- numeral n)"
  using round64_int [of "- numeral n"] by simp

lemma round64_1: "round64 1 = Finite 1"
  using round64_int [of 1] by simp

lemma binade_range: "- 1022 \<le> binade x" "binade x \<le> 1023"
  unfolding binade_def using find_binade_range [of 2045 "\<bar>x\<bar>"] by simp_all

lemma binade_upper: "binade x < 1023 \<Longrightarrow> \<bar>x\<bar> < 2 powi (binade x + 1)"
  unfolding binade_def by (intro find_binade_upper) simp

lemma rounded_below_top:
  assumes "binade x < 1023"
  shows "\<bar>of_int (round_half_even (x / 2 powi (binade x - 52))) * 2 powi (binade x - 52)\<bar> \<le> (2::real) ^ 1023"
proof -
  define n where "n = binade x"
  define u :: real where "u = 2 powi (n - 52)"
  define m where "m = round_half_even (x / u)"
  have u: "0 < u" by (simp add: u_def)
  have "\<bar>x\<bar> < 2 powi (n + 1)" unfolding n_def using assms by (rule binade_upper)
  also have "(2::real) powi (n + 1) = 2 ^ 53 * u"
    unfolding u_def by (simp add: power_int_diff power_int_add)
  finally have "\<bar>x\<bar> / u < 2 ^ 53" using u by (simp add: field_simps)
  then have r: "\<bar>x / u\<bar> < 2 ^ 53" using u by simp
  have c: "real_of_int (2 ^ 53) = 2 ^ 53" "real_of_int (- (2 ^ 53)) = - (2 ^ 53)" by simp_all
  have r12: "x / u \<le> real_of_int (2 ^ 53)" "real_of_int (- (2 ^ 53)) \<le> x / u"
    unfolding c using r by linarith+
  have "m \<le> 2 ^ 53"
    unfolding m_def using r12(1) by (rule round_half_even_le_int)
  moreover have "- (2 ^ 53) \<le> m"
    unfolding m_def using r12(2) by (rule round_half_even_mono_int)
  ultimately have "\<bar>m\<bar> \<le> 2 ^ 53" by simp
  then have "\<bar>real_of_int m\<bar> \<le> 2 ^ 53"
    by (metis of_int_abs of_int_le_numeral_power_cancel_iff)
  then have "\<bar>real_of_int m\<bar> * u \<le> 2 ^ 53 * u" using u by (intro mult_right_mono) simp_all
  also have "2 ^ 53 * u = 2 powi (n + 1)"
    unfolding u_def by (simp add: power_int_diff power_int_add)
  also have "\<dots> \<le> 2 powi 1023" using assms unfolding n_def by (intro power_int_increasing) simp_all
  finally have "\<bar>real_of_int m * u\<bar> \<le> 2 ^ 1023" using u by (simp add: abs_mult)
  then show ?thesis unfolding m_def u_def n_def .
qed

lemma pow1023_le_max: "(2::real) ^ 1023 \<le> max_double"
  by (simp add: max_double_def)

lemma max_lt_pow1024: "max_double < 2 ^ 1024"
  by (simp add: max_double_def)

lemma round64_Finite_bound:
  assumes "round64 x = Finite y"
  shows "\<bar>y\<bar> \<le> max_double"
proof -
  define m where "m = round_half_even (x / 2 powi (binade x - 52))"
  from assms have y: "y = of_int m * 2 powi (binade x - 52)"
    and lt: "y < 2 ^ 1024" "- (2 ^ 1024) < y"
    unfolding round64_def Let_def m_def by (auto split: if_splits)
  show ?thesis
  proof (cases "binade x < 1023")
    case True
    from rounded_below_top [OF True] have "\<bar>y\<bar> \<le> 2 ^ 1023" unfolding y m_def .
    with pow1023_le_max show ?thesis by linarith
  next
    case False
    with binade_range(2) [of x] have b: "binade x = 1023" by simp
    have y2: "y = of_int m * 2 ^ 971" unfolding y b by simp
    have "real_of_int m * 2 ^ 971 < 2 ^ 53 * 2 ^ 971" using lt(1) unfolding y2 by (simp flip: power_add)
    then have "real_of_int m < 2 ^ 53" by simp
    then have m1: "m \<le> 2 ^ 53 - 1"
      by (metis of_int_less_numeral_power_cancel_iff zle_diff1_eq)
    have "- (2 ^ 53 * 2 ^ 971) < real_of_int m * 2 ^ 971" using lt(2) unfolding y2 by (simp flip: power_add)
    then have "- (2 ^ 53) < real_of_int m" by simp
    then have "- (2 ^ 53) < m"
      by (metis of_int_less_iff of_int_minus of_int_numeral of_int_power)
    then have m2: "- (2 ^ 53 - 1) \<le> m" by simp
    from m1 m2 have "\<bar>m\<bar> \<le> 2 ^ 53 - 1" by simp
    then have "real_of_int \<bar>m\<bar> \<le> real_of_int (2 ^ 53 - 1)" by (simp only: of_int_le_iff)
    then have "\<bar>real_of_int m\<bar> \<le> 2 ^ 53 - 1" by simp
    then have "\<bar>real_of_int m\<bar> * 2 ^ 971 \<le> (2 ^ 53 - 1) * 2 ^ 971" by (intro mult_right_mono) simp_all
    then show ?thesis unfolding y2 max_double_def by (simp add: abs_mult)
  qed
qed

lemma round64_finite:
  assumes "\<bar>x\<bar> \<le> max_double"
  shows "\<exists>y. round64 x = Finite y"
proof -
  define m where "m = round_half_even (x / 2 powi (binade x - 52))"
  define y where "y = real_of_int m * 2 powi (binade x - 52)"
  have "\<bar>y\<bar> < 2 ^ 1024"
  proof (cases "binade x < 1023")
    case True
    from rounded_below_top [OF True] have "\<bar>y\<bar> \<le> 2 ^ 1023" unfolding y_def m_def .
    then show ?thesis by (simp add: order_le_less_trans)
  next
    case False
    with binade_range(2) [of x] have b: "binade x = 1023" by simp
    have y2: "y = of_int m * 2 ^ 971" unfolding y_def b by simp
    have "\<bar>x\<bar> / 2 ^ 971 \<le> 2 ^ 53 - 1" using assms unfolding max_double_def by (simp add: field_simps)
    then have r: "\<bar>x / 2 ^ 971\<bar> \<le> 2 ^ 53 - 1" by simp
    have m': "m = round_half_even (x / 2 ^ 971)" unfolding m_def b by simp
    have c: "real_of_int (2 ^ 53 - 1) = 2 ^ 53 - 1" "real_of_int (- (2 ^ 53 - 1)) = - (2 ^ 53 - 1)"
      by simp_all
    have r12: "x / 2 ^ 971 \<le> real_of_int (2 ^ 53 - 1)" "real_of_int (- (2 ^ 53 - 1)) \<le> x / 2 ^ 971"
      unfolding c using r by linarith+
    have "m \<le> 2 ^ 53 - 1"
      unfolding m' using r12(1) by (rule round_half_even_le_int)
    moreover have "- (2 ^ 53 - 1) \<le> m"
      unfolding m' using r12(2) by (rule round_half_even_mono_int)
    ultimately have "\<bar>m\<bar> \<le> 2 ^ 53 - 1" by simp
    then have "real_of_int \<bar>m\<bar> \<le> real_of_int (2 ^ 53 - 1)" by (simp only: of_int_le_iff)
    then have "\<bar>real_of_int m\<bar> \<le> 2 ^ 53 - 1" by simp
    then have "\<bar>real_of_int m\<bar> * 2 ^ 971 \<le> (2 ^ 53 - 1) * 2 ^ 971" by (intro mult_right_mono) simp_all
    then have "\<bar>y\<bar> \<le> max_double" unfolding y2 max_double_def by (simp add: abs_mult)
    with max_lt_pow1024 show ?thesis by linarith
  qed
  then have "round64 x = Finite y"
    unfolding round64_def Let_def y_def m_def by auto
  then show ?thesis by blast
qed




lemma round64_2_53_plus_1: "round64 (of_int (2 ^ 53 + 1)) = Finite (2 ^ 53)"
proof -
  have "round64 (of_int (2 ^ 53 + 1)) = Finite (of_int (2 ^ 52) * 2 powi (53 - 52))"
  proof (rule round64_eval)
    show "binade (of_int (2 ^ 53 + 1)) = 53" by (rule binade_eq) simp_all
    show "round_half_even (of_int (2 ^ 53 + 1) / 2 powi (53 - 52)) = 2 ^ 52"
      by (simp add: round_half_even_def)
    show "\<bar>real_of_int (2 ^ 52) * 2 powi (53 - 52)\<bar> < 2 ^ 1024" by simp
  qed
  then show ?thesis by simp
qed

subsection \<open>Operations\<close>

lemma py_float_exact: "\<bar>q\<bar> \<le> 2 ^ 53 \<Longrightarrow> py_float q = Inr (Finite (of_int q))"
  by (simp add: py_float_def round64_int)

lemma fadd_Finite_bound:
  assumes "fadd a b = Finite y"
  shows "\<bar>y\<bar> \<le> max_double"
proof (cases a)
  case (Finite u)
  show ?thesis
  proof (cases b)
    case (Finite v)
    with assms \<open>a = Finite u\<close> have "round64 (u + v) = Finite y" by simp
    then show ?thesis by (rule round64_Finite_bound)
  qed (use assms \<open>a = Finite u\<close> in simp_all)
qed (use assms in \<open>cases b; simp\<close>)+

lemma fdiv_finite:
  assumes "\<bar>y\<bar> \<le> max_double" "1 \<le> t"
  shows "is_finite (fdiv (Finite y) (Finite t))"
proof -
  have "\<bar>y\<bar> / t \<le> \<bar>y\<bar> / 1"
    using assms(2) by (intro divide_left_mono) simp_all
  moreover have "\<bar>t\<bar> = t" using assms(2) by simp
  ultimately have "\<bar>y / t\<bar> \<le> \<bar>y\<bar>" by (simp add: abs_divide)
  with assms(1) have "\<bar>y / t\<bar> \<le> max_double" by linarith
  from round64_finite [OF this] obtain z where "round64 (y / t) = Finite z" by blast
  with assms(2) show ?thesis by (simp add: is_finite_def)
qed

lemma fmul_zero: "fmul (Finite v) (Finite 0) = Finite 0"
  by (simp add: round64_0)

lemma fadd_zero_zero: "fadd (Finite 0) (Finite 0) = Finite 0"
  by (simp add: round64_0)

lemma foldl_fadd_bound:
  assumes "xs \<noteq> []" "foldl fadd a xs = Finite y"
  shows "\<bar>y\<bar> \<le> max_double"
proof -
  from assms(1) obtain ys z where "xs = ys @ [z]" by (metis rev_exhaust)
  with assms(2) have "fadd (foldl fadd a ys) z = Finite y" by simp
  then show ?thesis by (rule fadd_Finite_bound)
qed

lemma sum_list_bounded:
  assumes "\<forall>x\<in>set xs. 0 \<le> f x \<and> f x \<le> (b::int)"
  shows "0 \<le> sum_list (map f xs) \<and> sum_list (map f xs) \<le> int (length xs) * b"
  using assms by (induction xs) (auto simp: algebra_simps)

subsection \<open>The scenario quantities\<close>

lemma scenario_tx_loop_f64_eq:
  assumes "\<forall>p\<in>set pms. \<exists>q c f y.
             base_tx p = Some q \<and> relative_changes p = Some c \<and> scenario_factor_f64 c = Inr f
           \<and> scenario_product_f64 q growth_factor f = Inr (Finite y) \<and> stored p = py_int y"
  shows "scenario_tx_loop_f64 base_tx growth_factor relative_changes pms d =
     Inr (\<lambda>k. if k \<in> set pms then Some (stored k) else d k)"
  using assms
proof (induction pms arbitrary: d)
  case Nil
  then show ?case by simp
next
  case (Cons pm pms)
  then obtain q c f y where h: "base_tx pm = Some q" "relative_changes pm = Some c"
    "scenario_factor_f64 c = Inr f" "scenario_product_f64 q growth_factor f = Inr (Finite y)"
    "stored pm = py_int y"
    by auto
  have "scenario_tx_loop_f64 base_tx growth_factor relative_changes pms (d(pm \<mapsto> py_int y)) =
     Inr (\<lambda>k. if k \<in> set pms then Some (stored k) else (d(pm \<mapsto> py_int y)) k)"
    using Cons.prems by (intro Cons.IH) simp
  then show ?case using h by (auto simp: fun_eq_iff py_int_of_float_def)
qed

lemma scenario_tx_f64_eq:
  assumes "\<forall>p\<in>set PAYMENT_METHODS. \<exists>q c f y.
             base_tx p = Some q \<and> relative_changes p = Some c \<and> scenario_factor_f64 c = Inr f
           \<and> scenario_product_f64 q growth_factor f = Inr (Finite y)"
  shows "scenario_tx_f64 base_tx growth_factor relative_changes =
     Inr (\<lambda>k. if k \<in> set PAYMENT_METHODS
               then Some (stored_quantity_f64 base_tx growth_factor relative_changes k)
               else None)"
proof -
  have "\<forall>p\<in>set PAYMENT_METHODS. \<exists>q c f y.
             base_tx p = Some q \<and> relative_changes p = Some c \<and> scenario_factor_f64 c = Inr f
           \<and> scenario_product_f64 q growth_factor f = Inr (Finite y)
           \<and> stored_quantity_f64 base_tx growth_factor relative_changes p = py_int y"
  proof
    fix p assume "p \<in> set PAYMENT_METHODS"
    with assms obtain q c f y where h: "base_tx p = Some q" "relative_changes p = Some c"
      "scenario_factor_f64 c = Inr f" "scenario_product_f64 q growth_factor f = Inr (Finite y)"
      by blast
    then have "stored_quantity_f64 base_tx growth_factor relative_changes p = py_int y"
      by (simp add: stored_quantity_f64_def)
    with h show "\<exists>q c f y.
             base_tx p = Some q \<and> relative_changes p = Some c \<and> scenario_factor_f64 c = Inr f
           \<and> scenario_product_f64 q growth_factor f = Inr (Finite y)
           \<and> stored_quantity_f64 base_tx growth_factor relative_changes p = py_int y"
      by blast
  qed
  then show ?thesis
    unfolding scenario_tx_f64_def by (simp add: scenario_tx_loop_f64_eq)
qed

lemma scenario_factor_f64_0: "scenario_factor_f64 0 = Inr (Finite 1)"
proof -
  have "round64 1 = Finite 1" using round64_int [of 1] by simp
  then show ?thesis
    by (simp add: scenario_factor_f64_def py_float_def round64_0 py_truediv_def)
qed

lemma scenario_product_f64_identity:
  assumes "\<bar>q\<bar> \<le> 2 ^ 53"
  shows "scenario_product_f64 q (Finite 1) (Finite 1) = Inr (Finite (of_int q))"
  using assms by (simp add: scenario_product_f64_def py_float_exact round64_int)




lemma map_of_const: "k \<in> set ks \<Longrightarrow> map_of (map (\<lambda>p. (p, c)) ks) k = Some c"
  by (induction ks) auto

lemma slider_changes_eq: "pm \<in> set PAYMENT_METHODS \<Longrightarrow> slider_changes pm = Some 0"
  unfolding slider_changes_def by (rule map_of_const)

lemma baseline_bounded:
  "pm \<in> set PAYMENT_METHODS \<Longrightarrow> \<exists>q. baseline_transactions pm = Some q \<and> 0 \<le> q \<and> q \<le> 2 ^ 50"
  by (auto simp: PAYMENT_METHODS_def baseline_transactions_def)


lemma py_float_2_53_1: "py_float 9007199254740993 = Inr (Finite 9007199254740992)"
  using round64_2_53_plus_1 by (simp add: py_float_def)

lemma product_2_53_1:
  "scenario_product_f64 9007199254740993 (Finite 1) (Finite 1) = Inr (Finite 9007199254740992)"
proof -
  have "round64 9007199254740992 = Finite 9007199254740992"
    using round64_int [of 9007199254740992] by simp
  then show ?thesis
    using py_float_2_53_1 by (simp add: scenario_product_f64_def)
qed




text \<open>
  C7, as the code has it. With the growth factor \<open>1.0\<close> and every relative change
  \<open>0\<close>, the scenario quantities are exactly the baseline quantities when these are at
  most \<open>2 ^ 53\<close> in absolute value.
\<close>

theorem scenario_identity_double:
  assumes "\<forall>pm\<in>set PAYMENT_METHODS. \<exists>q. base pm = Some q \<and> \<bar>q\<bar> \<le> 2 ^ 53"
    and "\<forall>pm\<in>set PAYMENT_METHODS. relative_changes pm = Some 0"
  shows "\<exists>b. baseline_tx base = Inr b
       \<and> b = base |` set PAYMENT_METHODS
       \<and> scenario_tx_f64 b (Finite 1) relative_changes = Inr b"
proof -
  let ?b = "base |` set PAYMENT_METHODS"
  have dom: "set PAYMENT_METHODS \<subseteq> dom base"
    using assms(1) by auto
  have prod: "\<forall>p\<in>set PAYMENT_METHODS. \<exists>q c f y.
             ?b p = Some q \<and> relative_changes p = Some c \<and> scenario_factor_f64 c = Inr f
           \<and> scenario_product_f64 q (Finite 1) f = Inr (Finite y)"
  proof
    fix p assume p: "p \<in> set PAYMENT_METHODS"
    with assms(1) obtain q where q: "base p = Some q" "\<bar>q\<bar> \<le> 2 ^ 53" by blast
    with p assms(2) scenario_factor_f64_0 scenario_product_f64_identity [OF q(2)]
    have "?b p = Some q \<and> relative_changes p = Some 0 \<and> scenario_factor_f64 0 = Inr (Finite 1)
           \<and> scenario_product_f64 q (Finite 1) (Finite 1) = Inr (Finite (of_int q))"
      by simp
    then show "\<exists>q c f y.
             ?b p = Some q \<and> relative_changes p = Some c \<and> scenario_factor_f64 c = Inr f
           \<and> scenario_product_f64 q (Finite 1) f = Inr (Finite y)"
      by blast
  qed
  have "(\<lambda>k. if k \<in> set PAYMENT_METHODS
               then Some (stored_quantity_f64 ?b (Finite 1) relative_changes k)
               else None) = ?b"
  proof
    fix k
    show "(if k \<in> set PAYMENT_METHODS
               then Some (stored_quantity_f64 ?b (Finite 1) relative_changes k)
               else None) = ?b k"
    proof (cases "k \<in> set PAYMENT_METHODS")
      case True
      with assms(1) obtain q where q: "base k = Some q" "\<bar>q\<bar> \<le> 2 ^ 53" by blast
      with True assms(2) show ?thesis
        by (simp add: stored_quantity_f64_def scenario_factor_f64_0 scenario_product_f64_identity
            py_int_of_int)
    next
      case False
      then show ?thesis by simp
    qed
  qed
  then have "scenario_tx_f64 ?b (Finite 1) relative_changes = Inr ?b"
    by (simp add: scenario_tx_f64_eq [OF prod])
  then show ?thesis
    using baseline_tx_eq [OF dom] by simp
qed

theorem scenario_identity_double_witness:
  "\<exists>b. baseline_tx baseline_transactions = Inr b
       \<and> b = baseline_transactions |` set PAYMENT_METHODS
       \<and> scenario_tx_f64 b (Finite 1) slider_changes = Inr b"
proof -
  have h1: "\<forall>pm\<in>set PAYMENT_METHODS. \<exists>q. baseline_transactions pm = Some q \<and> \<bar>q\<bar> \<le> 2 ^ 53"
    by (simp add: PAYMENT_METHODS_def baseline_transactions_def)
  have h2: "\<forall>pm\<in>set PAYMENT_METHODS. slider_changes pm = Some 0"
    by (simp add: PAYMENT_METHODS_def slider_changes_def)
  show ?thesis
    by (rule scenario_identity_double [OF h1 h2])
qed

text \<open>
  C7, as the claim states it, fails for a larger quantity: \<open>2 ^ 53 + 1\<close> transactions
  come back as \<open>2 ^ 53\<close>.
\<close>

theorem scenario_identity_counterexample:
  "baseline_tx (baseline_transactions(''Visa'' \<mapsto> 9007199254740993)) =
     Inr (baseline_transactions(''Visa'' \<mapsto> 9007199254740993))
   \<and> scenario_tx_f64 (baseline_transactions(''Visa'' \<mapsto> 9007199254740993)) (Finite 1) slider_changes =
     Inr (baseline_transactions(''Visa'' \<mapsto> 9007199254740992))
   \<and> baseline_transactions(''Visa'' \<mapsto> 9007199254740993) \<noteq>
     baseline_transactions(''Visa'' \<mapsto> 9007199254740992)"
proof -
  let ?base = "baseline_transactions(''Visa'' \<mapsto> 9007199254740993)"
  have visa: "''Visa'' \<in> set PAYMENT_METHODS" by (simp add: PAYMENT_METHODS_def)
  have outside: "baseline_transactions k = None" if "k \<notin> set PAYMENT_METHODS" for k
    using that by (auto simp: PAYMENT_METHODS_def baseline_transactions_def)
  have b: "?base |` set PAYMENT_METHODS = ?base"
    using visa outside by (auto simp: fun_eq_iff restrict_map_def)
  have btx: "baseline_tx ?base = Inr ?base"
    using baseline_tx_eq [OF dom_transactions_upd, of "''Visa''" 9007199254740993] b by simp
  have prod: "\<forall>p\<in>set PAYMENT_METHODS. \<exists>q c f y.
             ?base p = Some q \<and> slider_changes p = Some c \<and> scenario_factor_f64 c = Inr f
           \<and> scenario_product_f64 q (Finite 1) f = Inr (Finite y)"
  proof
    fix p assume p: "p \<in> set PAYMENT_METHODS"
    show "\<exists>q c f y.
             ?base p = Some q \<and> slider_changes p = Some c \<and> scenario_factor_f64 c = Inr f
           \<and> scenario_product_f64 q (Finite 1) f = Inr (Finite y)"
    proof (cases "p = ''Visa''")
      case True
      with slider_changes_eq [OF p] scenario_factor_f64_0 product_2_53_1
      have "?base p = Some 9007199254740993 \<and> slider_changes p = Some 0
          \<and> scenario_factor_f64 0 = Inr (Finite 1)
          \<and> scenario_product_f64 9007199254740993 (Finite 1) (Finite 1) = Inr (Finite 9007199254740992)"
        by simp
      then show ?thesis by blast
    next
      case False
      from baseline_bounded [OF p] obtain q where q: "baseline_transactions p = Some q" "\<bar>q\<bar> \<le> 2 ^ 53"
        by fastforce
      with False slider_changes_eq [OF p] scenario_factor_f64_0 scenario_product_f64_identity [OF q(2)]
      have "?base p = Some q \<and> slider_changes p = Some 0
          \<and> scenario_factor_f64 0 = Inr (Finite 1)
          \<and> scenario_product_f64 q (Finite 1) (Finite 1) = Inr (Finite (of_int q))"
        by simp
      then show ?thesis by blast
    qed
  qed
  have "(\<lambda>k. if k \<in> set PAYMENT_METHODS
               then Some (stored_quantity_f64 ?base (Finite 1) slider_changes k)
               else None) = baseline_transactions(''Visa'' \<mapsto> 9007199254740992)"
  proof
    fix k
    show "(if k \<in> set PAYMENT_METHODS
               then Some (stored_quantity_f64 ?base (Finite 1) slider_changes k)
               else None) = (baseline_transactions(''Visa'' \<mapsto> 9007199254740992)) k"
    proof (cases "k \<in> set PAYMENT_METHODS")
      case True
      show ?thesis
      proof (cases "k = ''Visa''")
        case True
        with visa slider_changes_eq [OF visa] show ?thesis
          by (simp add: stored_quantity_f64_def scenario_factor_f64_0 product_2_53_1 py_int_def)
      next
        case False
        from baseline_bounded [OF True] obtain q where q: "baseline_transactions k = Some q" "\<bar>q\<bar> \<le> 2 ^ 53"
          by fastforce
        with True False slider_changes_eq [OF True] show ?thesis
          by (simp add: stored_quantity_f64_def scenario_factor_f64_0 scenario_product_f64_identity
              py_int_of_int)
      qed
    next
      case False
      with outside [OF False] visa show ?thesis by auto
    qed
  qed
  then have stx: "scenario_tx_f64 ?base (Finite 1) slider_changes =
      Inr (baseline_transactions(''Visa'' \<mapsto> 9007199254740992))"
    by (simp add: scenario_tx_f64_eq [OF prod])
  have ne: "?base \<noteq> baseline_transactions(''Visa'' \<mapsto> 9007199254740992)"
  proof
    assume "?base = baseline_transactions(''Visa'' \<mapsto> 9007199254740992)"
    then have "?base ''Visa'' = (baseline_transactions(''Visa'' \<mapsto> 9007199254740992)) ''Visa''"
      by simp
    then show False by simp
  qed
  from btx stx ne show ?thesis by blast
qed

subsection \<open>The loops of the engine\<close>

lemma zero_blocks_f64_eq:
  "zero_blocks_f64 = (\<lambda>cb. if cb \<in> set cost_blocks then Some (Finite 0) else None)"
  by (simp add: zero_blocks_f64_def foldl_upd_const)

lemma breakdown_init_f64_eq:
  "breakdown_init_f64 = (\<lambda>pm. if pm \<in> set PAYMENT_METHODS then Some zero_blocks_f64 else None)"
  by (simp add: breakdown_init_f64_def foldl_upd_const)

lemma dom_per_tx_f64: "dom (compute_per_tx_cost_blocks_f64 p) = set cost_blocks"
  by (auto simp: compute_per_tx_cost_blocks_f64_def cost_blocks_def Let_def dom_def split: if_splits)

lemma block_loop_f64_eq:
  assumes "breakdown pm = Some row" "set cbs \<subseteq> dom row" "set cbs \<subseteq> dom ptb" "distinct cbs"
    and "py_float tx = Inr t"
  shows "block_loop_f64 ptb tx pm cbs (breakdown, acc) =
     Inr (breakdown(pm \<mapsto> (\<lambda>cb. if cb \<in> set cbs then Some (fadd (the (row cb)) (fmul (the (ptb cb)) t)) else row cb)),
          foldl fadd acc (map (\<lambda>cb. fmul (the (ptb cb)) t) cbs))"
  using assms(1-4)
proof (induction cbs arbitrary: breakdown row acc)
  case Nil
  then show ?case by (simp add: map_upd_triv)
next
  case (Cons cb cbs)
  from Cons.prems obtain v old where v: "ptb cb = Some v" and old: "row cb = Some old"
    by auto
  let ?row' = "row(cb \<mapsto> fadd old (fmul v t))"
  let ?bd' = "breakdown(pm \<mapsto> ?row')"
  have step: "block_loop_f64 ptb tx pm (cb # cbs) (breakdown, acc) =
     block_loop_f64 ptb tx pm cbs (?bd', fadd acc (fmul v t))"
    using v old Cons.prems(1) assms(5) by (simp add: Let_def)
  have ih: "block_loop_f64 ptb tx pm cbs (?bd', fadd acc (fmul v t)) =
     Inr (?bd'(pm \<mapsto> (\<lambda>c. if c \<in> set cbs then Some (fadd (the (?row' c)) (fmul (the (ptb c)) t)) else ?row' c)),
          foldl fadd (fadd acc (fmul v t)) (map (\<lambda>c. fmul (the (ptb c)) t) cbs))"
    using Cons.prems by (intro Cons.IH) auto
  have rows: "(\<lambda>c. if c \<in> set cbs then Some (fadd (the (?row' c)) (fmul (the (ptb c)) t)) else ?row' c)
     = (\<lambda>c. if c \<in> set (cb # cbs) then Some (fadd (the (row c)) (fmul (the (ptb c)) t)) else row c)"
    using Cons.prems v old by (auto simp: fun_eq_iff)
  have tot: "foldl fadd (fadd acc (fmul v t)) (map (\<lambda>c. fmul (the (ptb c)) t) cbs)
     = foldl fadd acc (map (\<lambda>c. fmul (the (ptb c)) t) (cb # cbs))"
    using v by simp
  show ?case unfolding step ih rows tot by (simp add: fun_eq_iff)
qed

lemma block_loop_f64_cost_blocks:
  assumes "breakdown pm = Some zero_blocks_f64" "\<bar>tx\<bar> \<le> 2 ^ 53"
  shows "block_loop_f64 (compute_per_tx_cost_blocks_f64 p) tx pm cost_blocks (breakdown, Finite 0) =
           Inr (breakdown(pm \<mapsto> block_costs_f64 p tx), blocks_total_f64 p tx)"
proof -
  have rows: "(\<lambda>cb. if cb \<in> set cost_blocks
                 then Some (fadd (the (zero_blocks_f64 cb))
                              (fmul (the (compute_per_tx_cost_blocks_f64 p cb)) (Finite (of_int tx))))
                 else zero_blocks_f64 cb) = block_costs_f64 p tx"
  proof
    fix cb
    show "(if cb \<in> set cost_blocks
                 then Some (fadd (the (zero_blocks_f64 cb))
                              (fmul (the (compute_per_tx_cost_blocks_f64 p cb)) (Finite (of_int tx))))
                 else zero_blocks_f64 cb) = block_costs_f64 p tx cb"
    proof (cases "cb \<in> set cost_blocks")
      case True
      then obtain v where "compute_per_tx_cost_blocks_f64 p cb = Some v"
        using dom_per_tx_f64 [of p] by auto
      with True show ?thesis by (simp add: block_costs_f64_def zero_blocks_f64_eq)
    next
      case False
      then have "compute_per_tx_cost_blocks_f64 p cb = None"
        using dom_per_tx_f64 [of p] by auto
      with False show ?thesis by (simp add: block_costs_f64_def zero_blocks_f64_eq)
    qed
  qed
  have "set cost_blocks \<subseteq> dom zero_blocks_f64"
    by (auto simp: zero_blocks_f64_eq)
  then have "block_loop_f64 (compute_per_tx_cost_blocks_f64 p) tx pm cost_blocks (breakdown, Finite 0) =
     Inr (breakdown(pm \<mapsto> (\<lambda>cb. if cb \<in> set cost_blocks
                 then Some (fadd (the (zero_blocks_f64 cb))
                              (fmul (the (compute_per_tx_cost_blocks_f64 p cb)) (Finite (of_int tx))))
                 else zero_blocks_f64 cb)),
          foldl fadd (Finite 0)
            (map (\<lambda>cb. fmul (the (compute_per_tx_cost_blocks_f64 p cb)) (Finite (of_int tx))) cost_blocks))"
    using assms by (intro block_loop_f64_eq) (simp_all add: dom_per_tx_f64 distinct_cost_blocks py_float_exact)
  then show ?thesis
    unfolding rows blocks_total_f64_def by simp
qed

lemma method_loop_f64_eq:
  assumes "distinct pms" "\<forall>pm\<in>set pms. breakdown pm = Some zero_blocks_f64"
    "set pms \<subseteq> dom cost_params"
    "\<forall>pm\<in>set pms. \<exists>tx. transactions_dict pm = Some tx \<and> \<bar>tx\<bar> \<le> 2 ^ 53"
  shows "method_loop_f64 cost_params transactions_dict pms (rows, breakdown) =
           Inr (rows @ map (engine_row_f64 cost_params transactions_dict) pms,
                (\<lambda>k. if k \<in> set pms
                      then Some (block_costs_f64 (the (cost_params k)) (the (transactions_dict k)))
                      else breakdown k))"
  using assms
proof (induction pms arbitrary: rows breakdown)
  case Nil
  then show ?case by simp
next
  case (Cons pm pms)
  from Cons.prems obtain tx p where tx: "transactions_dict pm = Some tx" "\<bar>tx\<bar> \<le> 2 ^ 53"
    and p: "cost_params pm = Some p"
    by auto
  have bd: "breakdown pm = Some zero_blocks_f64"
    using Cons.prems by simp
  let ?row = "\<lparr>payment_method_f64 = pm, transactions_f64 = tx, total_cost_f64 = blocks_total_f64 p tx,
          average_cost_f64 =
            (if tx > 0 then fdiv (blocks_total_f64 p tx) (Finite (of_int tx)) else Finite 0)\<rparr>"
  let ?bd' = "breakdown(pm \<mapsto> block_costs_f64 p tx)"
  have step: "method_loop_f64 cost_params transactions_dict (pm # pms) (rows, breakdown) =
      method_loop_f64 cost_params transactions_dict pms (rows @ [?row], ?bd')"
    using tx p bd by (simp add: block_loop_f64_cost_blocks py_float_exact py_truediv_def)
  have ih: "method_loop_f64 cost_params transactions_dict pms (rows @ [?row], ?bd') =
      Inr ((rows @ [?row]) @ map (engine_row_f64 cost_params transactions_dict) pms,
                (\<lambda>k. if k \<in> set pms
                      then Some (block_costs_f64 (the (cost_params k)) (the (transactions_dict k)))
                      else ?bd' k))"
    using Cons.prems by (intro Cons.IH) auto
  have row: "engine_row_f64 cost_params transactions_dict pm = ?row"
    using tx p by (simp add: engine_row_f64_def)
  show ?case unfolding step ih using tx p
    by (auto simp: fun_eq_iff row)
qed

lemma compute_costs_f64_eq:
  assumes "set PAYMENT_METHODS \<subseteq> dom cost_params"
    and "\<forall>pm\<in>set PAYMENT_METHODS. \<exists>tx. transactions_dict pm = Some tx \<and> \<bar>tx\<bar> \<le> 2 ^ 53"
  shows "compute_costs_f64 cost_params transactions_dict =
           Inr (map (engine_row_f64 cost_params transactions_dict) PAYMENT_METHODS,
                (\<lambda>k. if k \<in> set PAYMENT_METHODS
                      then Some (block_costs_f64 (the (cost_params k)) (the (transactions_dict k)))
                      else None))"
proof -
  have "method_loop_f64 cost_params transactions_dict PAYMENT_METHODS ([], breakdown_init_f64) =
           Inr ([] @ map (engine_row_f64 cost_params transactions_dict) PAYMENT_METHODS,
                (\<lambda>k. if k \<in> set PAYMENT_METHODS
                      then Some (block_costs_f64 (the (cost_params k)) (the (transactions_dict k)))
                      else breakdown_init_f64 k))"
    using assms by (intro method_loop_f64_eq) (simp_all add: distinct_PAYMENT_METHODS breakdown_init_f64_eq)
  moreover have "(\<lambda>k. if k \<in> set PAYMENT_METHODS
                      then Some (block_costs_f64 (the (cost_params k)) (the (transactions_dict k)))
                      else breakdown_init_f64 k) = (\<lambda>k. if k \<in> set PAYMENT_METHODS
                      then Some (block_costs_f64 (the (cost_params k)) (the (transactions_dict k)))
                      else None)"
    by (simp add: fun_eq_iff breakdown_init_f64_eq)
  ultimately show ?thesis
    unfolding compute_costs_f64_def by simp
qed

lemma payment_method_engine_row_f64 [simp]:
  "payment_method_f64 (engine_row_f64 cost_params transactions_dict pm) = pm"
  by (simp add: engine_row_f64_def Let_def)

lemma row_of_engine_f64:
  assumes "pm \<in> set PAYMENT_METHODS"
  shows "row_of_f64 (map (engine_row_f64 cost_params transactions_dict) PAYMENT_METHODS) pm =
           Some (engine_row_f64 cost_params transactions_dict pm)"
  unfolding row_of_f64_def using assms by (intro find_map_key) simp_all

lemma dom_uniform: "set PAYMENT_METHODS \<subseteq> dom (uniform_cost_params_f64 p)"
  by (auto simp: uniform_cost_params_f64_def map_of_const)

lemma uniform_eq: "pm \<in> set PAYMENT_METHODS \<Longrightarrow> uniform_cost_params_f64 p pm = Some p"
  unfolding uniform_cost_params_f64_def by (rule map_of_const)

lemma blocks_total_f64_unfold:
  "blocks_total_f64 p tx =
     fadd (fadd (fadd (fadd (fadd (Finite 0)
       (fmul (psp_fee_f64 p) (Finite (of_int tx))))
       (fmul (process_cost_f64 p) (Finite (of_int tx))))
       (fmul (dev_maintenance_f64 p) (Finite (of_int tx))))
       (fmul (fmul (write_off_rate_f64 p) (Finite AVERAGE_BASKET_VALUE)) (Finite (of_int tx))))
       (fmul (fneg (dunning_fee_per_tx_f64 p)) (Finite (of_int tx)))"
  by (simp add: blocks_total_f64_def cost_blocks_def compute_per_tx_cost_blocks_f64_def Let_def)

lemma blocks_total_f64_bound: "blocks_total_f64 p tx = Finite y \<Longrightarrow> \<bar>y\<bar> \<le> max_double"
  unfolding blocks_total_f64_unfold by (rule fadd_Finite_bound)

lemma engine_row_f64_fields:
  assumes "transactions_dict pm = Some tx"
  shows "transactions_f64 (engine_row_f64 cost_params transactions_dict pm) = tx"
    and "total_cost_f64 (engine_row_f64 cost_params transactions_dict pm) =
           blocks_total_f64 (the (cost_params pm)) tx"
    and "average_cost_f64 (engine_row_f64 cost_params transactions_dict pm) =
           (if tx > 0 then fdiv (blocks_total_f64 (the (cost_params pm)) tx) (Finite (of_int tx))
            else Finite 0)"
  using assms by (simp_all add: engine_row_f64_def Let_def)

lemma engine_row_f64_average_finite:
  assumes "transactions_dict pm = Some tx" "tx \<le> 2 ^ 53"
    and "is_finite (total_cost_f64 (engine_row_f64 cost_params transactions_dict pm))"
  shows "is_finite (average_cost_f64 (engine_row_f64 cost_params transactions_dict pm))"
proof (cases "0 < tx")
  note f = engine_row_f64_fields [of transactions_dict pm tx cost_params, OF assms(1)]
  case True
  from assms(3) obtain y where y: "blocks_total_f64 (the (cost_params pm)) tx = Finite y"
    unfolding f
    by (auto simp: is_finite_def split: double.splits)
  then have "\<bar>y\<bar> \<le> max_double" by (rule blocks_total_f64_bound)
  moreover have "1 \<le> real_of_int tx" using True by simp
  ultimately have "is_finite (fdiv (Finite y) (Finite (of_int tx)))" by (rule fdiv_finite)
  with True y show ?thesis unfolding f by simp
next
  note f = engine_row_f64_fields [of transactions_dict pm tx cost_params, OF assms(1)]
  case False
  then show ?thesis unfolding f by (simp add: is_finite_def)
qed

lemma per_tx_finite:
  assumes "psp_fee_f64 p = Finite a" "process_cost_f64 p = Finite b" "dev_maintenance_f64 p = Finite c"
    "fmul (write_off_rate_f64 p) (Finite AVERAGE_BASKET_VALUE) = Finite d"
    "dunning_fee_per_tx_f64 p = Finite e"
  shows "\<forall>cb\<in>set cost_blocks. \<exists>v. compute_per_tx_cost_blocks_f64 p cb = Some (Finite v)"
  by (simp add: cost_blocks_def compute_per_tx_cost_blocks_f64_def Let_def assms)

lemma dyadic_per_tx:
  "\<forall>cb\<in>set cost_blocks. \<exists>v. compute_per_tx_cost_blocks_f64 dyadic_params cb = Some (Finite v)"
proof (rule per_tx_finite [of dyadic_params "1 / 4" "1 / 2" "1 / 2" 25 "1 / 4"])
  show "fmul (write_off_rate_f64 dyadic_params) (Finite AVERAGE_BASKET_VALUE) = Finite 25"
    by (simp add: dyadic_params_def AVERAGE_BASKET_VALUE_def round64_numeral)
qed (simp_all add: dyadic_params_def)

lemma bounded_upd:
  "\<forall>pm\<in>set PAYMENT_METHODS. \<exists>tx. (baseline_transactions(''Visa'' \<mapsto> 0)) pm = Some tx \<and> \<bar>tx\<bar> \<le> 2 ^ 53"
  by (simp add: PAYMENT_METHODS_def baseline_transactions_def)

lemma baseline_bounded_50:
  "\<forall>pm\<in>set PAYMENT_METHODS. \<exists>tx. baseline_transactions pm = Some tx \<and> 0 \<le> tx \<and> tx \<le> 2 ^ 50"
  by (simp add: PAYMENT_METHODS_def baseline_transactions_def)

lemma baseline_bounded_53:
  "\<forall>pm\<in>set PAYMENT_METHODS. \<exists>tx. baseline_transactions pm = Some tx \<and> \<bar>tx\<bar> \<le> 2 ^ 53"
  by (simp add: PAYMENT_METHODS_def baseline_transactions_def)

lemma dyadic_frame:
  "map (engine_row_f64 (uniform_cost_params_f64 dyadic_params) baseline_transactions) PAYMENT_METHODS =
     [\<lparr>payment_method_f64 = ''Invoice (no fee)'', transactions_f64 = 600000,
       total_cost_f64 = Finite 15600000, average_cost_f64 = Finite 26\<rparr>,
      \<lparr>payment_method_f64 = ''Installments'', transactions_f64 = 40000,
       total_cost_f64 = Finite 1040000, average_cost_f64 = Finite 26\<rparr>,
      \<lparr>payment_method_f64 = ''Prepayment'', transactions_f64 = 30000,
       total_cost_f64 = Finite 780000, average_cost_f64 = Finite 26\<rparr>,
      \<lparr>payment_method_f64 = ''TWINT'', transactions_f64 = 350000,
       total_cost_f64 = Finite 9100000, average_cost_f64 = Finite 26\<rparr>,
      \<lparr>payment_method_f64 = ''Visa'', transactions_f64 = 220000,
       total_cost_f64 = Finite 5720000, average_cost_f64 = Finite 26\<rparr>,
      \<lparr>payment_method_f64 = ''Mastercard'', transactions_f64 = 140000,
       total_cost_f64 = Finite 3640000, average_cost_f64 = Finite 26\<rparr>,
      \<lparr>payment_method_f64 = ''PayPal'', transactions_f64 = 80000,
       total_cost_f64 = Finite 2080000, average_cost_f64 = Finite 26\<rparr>]"
  by (simp add: PAYMENT_METHODS_def engine_row_f64_def blocks_total_f64_unfold dyadic_params_def
      uniform_cost_params_f64_def baseline_transactions_def AVERAGE_BASKET_VALUE_def
      round64_numeral round64_neg_numeral round64_0)

lemma huge_fee_total:
  "1024 \<le> tx \<Longrightarrow> blocks_total_f64 huge_fee_params tx = PlusInf"
proof -
  assume tx: "1024 \<le> tx"
  then have "(2::real) ^ 10 \<le> of_int tx" by simp
  then have "(2::real) ^ 1014 * 2 ^ 10 \<le> 2 ^ 1014 * of_int tx"
    by (intro mult_left_mono) simp_all
  then have "(2::real) ^ 1024 \<le> 2 ^ 1014 * of_int tx" by (simp flip: power_add)
  then have o: "round64 (2 ^ 1014 * of_int tx) = PlusInf" by (rule round64_overflow)
  show ?thesis
    unfolding blocks_total_f64_unfold
    by (simp add: huge_fee_params_def AVERAGE_BASKET_VALUE_def o round64_0 del: power_numeral)
qed

lemma huge_fee_frame:
  "map (engine_row_f64 (uniform_cost_params_f64 huge_fee_params) baseline_transactions) PAYMENT_METHODS =
     [\<lparr>payment_method_f64 = ''Invoice (no fee)'', transactions_f64 = 600000,
       total_cost_f64 = PlusInf, average_cost_f64 = PlusInf\<rparr>,
      \<lparr>payment_method_f64 = ''Installments'', transactions_f64 = 40000,
       total_cost_f64 = PlusInf, average_cost_f64 = PlusInf\<rparr>,
      \<lparr>payment_method_f64 = ''Prepayment'', transactions_f64 = 30000,
       total_cost_f64 = PlusInf, average_cost_f64 = PlusInf\<rparr>,
      \<lparr>payment_method_f64 = ''TWINT'', transactions_f64 = 350000,
       total_cost_f64 = PlusInf, average_cost_f64 = PlusInf\<rparr>,
      \<lparr>payment_method_f64 = ''Visa'', transactions_f64 = 220000,
       total_cost_f64 = PlusInf, average_cost_f64 = PlusInf\<rparr>,
      \<lparr>payment_method_f64 = ''Mastercard'', transactions_f64 = 140000,
       total_cost_f64 = PlusInf, average_cost_f64 = PlusInf\<rparr>,
      \<lparr>payment_method_f64 = ''PayPal'', transactions_f64 = 80000,
       total_cost_f64 = PlusInf, average_cost_f64 = PlusInf\<rparr>]"
  by (simp add: PAYMENT_METHODS_def engine_row_f64_def huge_fee_total
      uniform_cost_params_f64_def baseline_transactions_def)

lemma overflow_write_off:
  "fmul (Finite (2 ^ 1020)) (Finite AVERAGE_BASKET_VALUE) = PlusInf"
  by (simp add: AVERAGE_BASKET_VALUE_def round64_overflow)

lemma huge_write_off_total:
  "blocks_total_f64 huge_write_off_params tx =
     (if tx = 0 then NaN else if 0 < tx then PlusInf else MinusInf)"
  by (simp add: blocks_total_f64_unfold huge_write_off_params_def AVERAGE_BASKET_VALUE_def
      round64_overflow round64_0)

text \<open>
  C2, as the code has it, for quantities from \<open>0\<close> to \<open>2 ^ 50\<close>. The engine raises
  no exception. The average cost of a payment method is the double quotient of its total
  cost by its quantity when the quantity is positive, and exactly \<open>0\<close> otherwise; the
  grand average is the double quotient of the sum of the total costs by the sum of the
  quantities when that sum is positive, and exactly \<open>0\<close> otherwise. No division has a
  zero divisor, and each ratio is finite whenever its numerator is finite.
\<close>

theorem average_cost_guarded_double:
  assumes "set PAYMENT_METHODS \<subseteq> dom cost_params"
    and "\<forall>pm\<in>set PAYMENT_METHODS. \<exists>tx. transactions_dict pm = Some tx \<and> 0 \<le> tx \<and> tx \<le> 2 ^ 50"
  shows "\<exists>df breakdown.
           compute_costs_f64 cost_params transactions_dict = Inr (df, breakdown)
         \<and> map payment_method_f64 df = PAYMENT_METHODS
         \<and> map (\<lambda>r. Some (transactions_f64 r)) df = map transactions_dict PAYMENT_METHODS
         \<and> map average_cost_f64 df =
             map (\<lambda>r. if transactions_f64 r > 0
                       then fdiv (total_cost_f64 r) (Finite (of_int (transactions_f64 r)))
                       else Finite 0) df
         \<and> (\<forall>r\<in>set df. is_finite (total_cost_f64 r) \<longrightarrow> is_finite (average_cost_f64 r))
         \<and> avg_cost_f64 df =
             (if sum_list (map transactions_f64 df) > 0
              then fdiv (foldl fadd (Finite 0) (map (\<lambda>r. nan_to_zero (total_cost_f64 r)) df))
                     (Finite (of_int (sum_list (map transactions_f64 df))))
              else Finite 0)
         \<and> (is_finite (foldl fadd (Finite 0) (map (\<lambda>r. nan_to_zero (total_cost_f64 r)) df))
              \<longrightarrow> is_finite (avg_cost_f64 df))"
proof -
  let ?df = "map (engine_row_f64 cost_params transactions_dict) PAYMENT_METHODS"
  let ?T = "foldl fadd (Finite 0) (map (\<lambda>r. nan_to_zero (total_cost_f64 r)) ?df)"
  let ?N = "sum_list (map transactions_f64 ?df)"
  have bound53: "\<forall>pm\<in>set PAYMENT_METHODS. \<exists>tx. transactions_dict pm = Some tx \<and> \<bar>tx\<bar> \<le> 2 ^ 53"
  proof
    fix pm assume "pm \<in> set PAYMENT_METHODS"
    with assms(2) obtain tx where "transactions_dict pm = Some tx" "0 \<le> tx" "tx \<le> 2 ^ 50" by blast
    then have "transactions_dict pm = Some tx \<and> \<bar>tx\<bar> \<le> 2 ^ 53" by simp
    then show "\<exists>tx. transactions_dict pm = Some tx \<and> \<bar>tx\<bar> \<le> 2 ^ 53" by blast
  qed
  have cc: "compute_costs_f64 cost_params transactions_dict =
      Inr (?df, \<lambda>k. if k \<in> set PAYMENT_METHODS
                      then Some (block_costs_f64 (the (cost_params k)) (the (transactions_dict k)))
                      else None)"
    by (rule compute_costs_f64_eq [OF assms(1) bound53])
  have idx: "map payment_method_f64 ?df = PAYMENT_METHODS"
    by (simp add: comp_def)
  have tx: "map (\<lambda>r. Some (transactions_f64 r)) ?df = map transactions_dict PAYMENT_METHODS"
    using assms(2) by (auto simp: engine_row_f64_fields)
  have avg: "map average_cost_f64 ?df =
             map (\<lambda>r. if transactions_f64 r > 0
                       then fdiv (total_cost_f64 r) (Finite (of_int (transactions_f64 r)))
                       else Finite 0) ?df"
    by (simp add: engine_row_f64_def Let_def)
  have fin: "\<forall>r\<in>set ?df. is_finite (total_cost_f64 r) \<longrightarrow> is_finite (average_cost_f64 r)"
  proof
    fix r assume "r \<in> set ?df"
    then obtain pm where pm: "pm \<in> set PAYMENT_METHODS"
      and r: "r = engine_row_f64 cost_params transactions_dict pm" by auto
    from assms(2) pm obtain q where q: "transactions_dict pm = Some q" "q \<le> 2 ^ 50" by blast
    then have "q \<le> 2 ^ 53" by simp
    with q(1) show "is_finite (total_cost_f64 r) \<longrightarrow> is_finite (average_cost_f64 r)"
      unfolding r by (auto intro: engine_row_f64_average_finite)
  qed
  have "\<forall>r\<in>set ?df. 0 \<le> transactions_f64 r \<and> transactions_f64 r \<le> 2 ^ 50"
    using assms(2) by (auto simp: engine_row_f64_fields)
  from sum_list_bounded [OF this]
  have "0 \<le> ?N" "?N \<le> int (length ?df) * 2 ^ 50" by simp_all
  moreover have "length ?df = 7" by (simp add: PAYMENT_METHODS_def)
  ultimately have n53: "\<bar>?N\<bar> \<le> 2 ^ 53" by simp
  have conv: "round64 (of_int ?N) = Finite (of_int ?N)"
    using n53 by (rule round64_int)
  have g: "avg_cost_f64 ?df =
             (if ?N > 0 then fdiv ?T (Finite (of_int ?N)) else Finite 0)"
    unfolding avg_cost_f64_def total_transactions_f64_def total_cost_column_f64_def conv ..
  have gfin: "is_finite ?T \<longrightarrow> is_finite (avg_cost_f64 ?df)"
  proof
    assume "is_finite ?T"
    then obtain y where y: "?T = Finite y" by (auto simp: is_finite_def split: double.splits)
    have "map (\<lambda>r. nan_to_zero (total_cost_f64 r)) ?df \<noteq> []" by (simp add: PAYMENT_METHODS_def)
    from foldl_fadd_bound [OF this y] have b: "\<bar>y\<bar> \<le> max_double" .
    show "is_finite (avg_cost_f64 ?df)"
    proof (cases "0 < ?N")
      case True
      then have "1 \<le> real_of_int ?N" by simp
      with b have "is_finite (fdiv (Finite y) (Finite (of_int ?N)))" by (rule fdiv_finite)
      with True show ?thesis unfolding g y by simp
    next
      case False
      then show ?thesis unfolding g by (simp add: is_finite_def)
    qed
  qed
  show ?thesis
    using cc idx tx avg fin g gfin by blast
qed

theorem average_cost_guarded_double_witness:
  "\<exists>df breakdown.
     compute_costs_f64 (uniform_cost_params_f64 dyadic_params) baseline_transactions =
       Inr (df, breakdown)
   \<and> map payment_method_f64 df = PAYMENT_METHODS
   \<and> map total_cost_f64 df =
       [Finite 15600000, Finite 1040000, Finite 780000, Finite 9100000, Finite 5720000,
        Finite 3640000, Finite 2080000]
   \<and> map average_cost_f64 df =
       [Finite 26, Finite 26, Finite 26, Finite 26, Finite 26, Finite 26, Finite 26]
   \<and> avg_cost_f64 df = Finite 26"
proof -
  let ?df = "map (engine_row_f64 (uniform_cost_params_f64 dyadic_params) baseline_transactions)
               PAYMENT_METHODS"
  from average_cost_guarded_double [OF dom_uniform baseline_bounded_50, of dyadic_params]
  obtain df breakdown where c:
    "compute_costs_f64 (uniform_cost_params_f64 dyadic_params) baseline_transactions =
       Inr (df, breakdown)"
    "map payment_method_f64 df = PAYMENT_METHODS"
    "avg_cost_f64 df =
             (if sum_list (map transactions_f64 df) > 0
              then fdiv (foldl fadd (Finite 0) (map (\<lambda>r. nan_to_zero (total_cost_f64 r)) df))
                     (Finite (of_int (sum_list (map transactions_f64 df))))
              else Finite 0)"
    by blast
  have df: "df = ?df"
    using c(1) compute_costs_f64_eq [OF dom_uniform baseline_bounded_53, of dyadic_params] by simp
  have t: "map total_cost_f64 df =
       [Finite 15600000, Finite 1040000, Finite 780000, Finite 9100000, Finite 5720000,
        Finite 3640000, Finite 2080000]"
    unfolding df dyadic_frame by simp
  have a: "map average_cost_f64 df =
       [Finite 26, Finite 26, Finite 26, Finite 26, Finite 26, Finite 26, Finite 26]"
    unfolding df dyadic_frame by simp
  have g: "avg_cost_f64 df = Finite 26"
    unfolding c(3) unfolding df dyadic_frame
    by (simp add: nan_to_zero_def round64_numeral)
  show ?thesis
    apply (rule exI [of _ df])
    apply (rule exI [of _ breakdown])
    using c(1,2) t a g by simp
qed

text \<open>
  C2, as the claim states it, fails: a ratio can be infinite. With a PSP fee of
  \<open>2 ^ 1014\<close> CHF, a finite double, the total costs overflow, and every average and the
  grand average are \<open>+inf\<close>.
\<close>

theorem average_cost_infinite_counterexample:
  "map_sum id (map total_cost_f64 \<circ> fst)
      (compute_costs_f64 (uniform_cost_params_f64 huge_fee_params) baseline_transactions) =
     Inr [PlusInf, PlusInf, PlusInf, PlusInf, PlusInf, PlusInf, PlusInf]
   \<and> map_sum id (map average_cost_f64 \<circ> fst)
      (compute_costs_f64 (uniform_cost_params_f64 huge_fee_params) baseline_transactions) =
     Inr [PlusInf, PlusInf, PlusInf, PlusInf, PlusInf, PlusInf, PlusInf]
   \<and> map_sum id (avg_cost_f64 \<circ> fst)
      (compute_costs_f64 (uniform_cost_params_f64 huge_fee_params) baseline_transactions) =
     Inr PlusInf
   \<and> \<not> is_finite PlusInf"
proof -
  note e = compute_costs_f64_eq [OF dom_uniform baseline_bounded_53, of huge_fee_params]
  have g: "avg_cost_f64 (map (engine_row_f64 (uniform_cost_params_f64 huge_fee_params)
      baseline_transactions) PAYMENT_METHODS) = PlusInf"
    unfolding huge_fee_frame
    by (simp add: avg_cost_f64_def total_transactions_f64_def total_cost_column_f64_def
        nan_to_zero_def round64_numeral)
  have t: "map total_cost_f64 (map (engine_row_f64 (uniform_cost_params_f64 huge_fee_params)
      baseline_transactions) PAYMENT_METHODS) =
      [PlusInf, PlusInf, PlusInf, PlusInf, PlusInf, PlusInf, PlusInf]"
    unfolding huge_fee_frame by simp
  have a: "map average_cost_f64 (map (engine_row_f64 (uniform_cost_params_f64 huge_fee_params)
      baseline_transactions) PAYMENT_METHODS) =
      [PlusInf, PlusInf, PlusInf, PlusInf, PlusInf, PlusInf, PlusInf]"
    unfolding huge_fee_frame by simp
  have "\<not> is_finite PlusInf" by (simp add: is_finite_def)
  then show ?thesis
    unfolding e by (simp only: map_sum.simps o_apply fst_conv g t a simp_thms)
qed

text \<open>
  C8, as the code has it. For a payment method whose quantity is \<open>0\<close> and whose five
  per-transaction values are finite (the write-off rate times the average basket value has
  not overflowed), the engine raises no exception, the total cost and the average cost of
  its row are \<open>0\<close>, and so are its five block costs.
\<close>

theorem zero_quantity_zero_cost_double:
  assumes "set PAYMENT_METHODS \<subseteq> dom cost_params"
    and "\<forall>pm\<in>set PAYMENT_METHODS. \<exists>tx. transactions_dict pm = Some tx \<and> \<bar>tx\<bar> \<le> 2 ^ 53"
    and "pm \<in> set PAYMENT_METHODS"
    and "transactions_dict pm = Some 0"
    and "cost_params pm = Some p"
    and "\<forall>cb\<in>set cost_blocks. \<exists>v. compute_per_tx_cost_blocks_f64 p cb = Some (Finite v)"
  shows "\<exists>df breakdown r row.
           compute_costs_f64 cost_params transactions_dict = Inr (df, breakdown)
         \<and> row_of_f64 df pm = Some r
         \<and> transactions_f64 r = 0 \<and> total_cost_f64 r = Finite 0 \<and> average_cost_f64 r = Finite 0
         \<and> breakdown pm = Some row
         \<and> map row cost_blocks =
             [Some (Finite 0), Some (Finite 0), Some (Finite 0), Some (Finite 0), Some (Finite 0)]"
proof -
  from assms(6) obtain v1 v2 v3 v4 v5 where v:
    "compute_per_tx_cost_blocks_f64 p ''PSP fees'' = Some (Finite v1)"
    "compute_per_tx_cost_blocks_f64 p ''Process costs'' = Some (Finite v2)"
    "compute_per_tx_cost_blocks_f64 p ''Dev & maintenance'' = Some (Finite v3)"
    "compute_per_tx_cost_blocks_f64 p ''Write-offs'' = Some (Finite v4)"
    "compute_per_tx_cost_blocks_f64 p ''Dunning fee revenue'' = Some (Finite v5)"
    unfolding cost_blocks_def by auto
  have total: "blocks_total_f64 p 0 = Finite 0"
    using v by (simp add: blocks_total_f64_def cost_blocks_def round64_0)
  have blocks: "map (block_costs_f64 p 0) cost_blocks =
      [Some (Finite 0), Some (Finite 0), Some (Finite 0), Some (Finite 0), Some (Finite 0)]"
    using v by (simp add: block_costs_f64_def cost_blocks_def round64_0)
  have row: "engine_row_f64 cost_params transactions_dict pm =
      \<lparr>payment_method_f64 = pm, transactions_f64 = 0, total_cost_f64 = Finite 0,
       average_cost_f64 = Finite 0\<rparr>"
    using assms(4,5) total by (simp add: engine_row_f64_def)
  show ?thesis
    using assms(3-5) blocks
    by (simp add: compute_costs_f64_eq [OF assms(1,2)] row_of_engine_f64 row)
qed

theorem zero_quantity_zero_cost_double_witness:
  "\<exists>df breakdown r row.
           compute_costs_f64 (uniform_cost_params_f64 dyadic_params)
             (baseline_transactions(''Visa'' \<mapsto> 0)) = Inr (df, breakdown)
         \<and> row_of_f64 df ''Visa'' = Some r
         \<and> transactions_f64 r = 0 \<and> total_cost_f64 r = Finite 0 \<and> average_cost_f64 r = Finite 0
         \<and> breakdown ''Visa'' = Some row
         \<and> map row cost_blocks =
             [Some (Finite 0), Some (Finite 0), Some (Finite 0), Some (Finite 0), Some (Finite 0)]"
proof -
  have h3: "''Visa'' \<in> set PAYMENT_METHODS"
    by (simp add: PAYMENT_METHODS_def)
  have h4: "(baseline_transactions(''Visa'' \<mapsto> 0)) ''Visa'' = Some 0"
    by simp
  have h5: "uniform_cost_params_f64 dyadic_params ''Visa'' = Some dyadic_params"
    by (rule uniform_eq [OF h3])
  show ?thesis
    by (rule zero_quantity_zero_cost_double [OF dom_uniform bounded_upd h3 h4 h5 dyadic_per_tx])
qed

text \<open>
  C8, as the claim states it, fails for a finite write-off rate of \<open>2 ^ 1020\<close>: the
  per-transaction write-off overflows to \<open>+inf\<close>, \<open>inf * 0\<close> is \<open>NaN\<close>, and the
  total cost of ``Visa'', whose quantity is \<open>0\<close>, is \<open>NaN\<close>.
\<close>

theorem zero_quantity_nan_counterexample:
  "map_sum id (map total_cost_f64 \<circ> fst)
      (compute_costs_f64 (uniform_cost_params_f64 huge_write_off_params)
         (baseline_transactions(''Visa'' \<mapsto> 0))) =
     Inr [PlusInf, PlusInf, PlusInf, PlusInf, NaN, PlusInf, PlusInf]
   \<and> (baseline_transactions(''Visa'' \<mapsto> 0)) ''Visa'' = Some 0
   \<and> NaN \<noteq> Finite 0"
proof -
  have rows: "map total_cost_f64
        (map (engine_row_f64 (uniform_cost_params_f64 huge_write_off_params)
          (baseline_transactions(''Visa'' \<mapsto> 0))) PAYMENT_METHODS) =
      [PlusInf, PlusInf, PlusInf, PlusInf, NaN, PlusInf, PlusInf]"
    by (simp add: PAYMENT_METHODS_def engine_row_f64_def uniform_cost_params_f64_def
        baseline_transactions_def huge_write_off_total)
  have "map_sum id (map total_cost_f64 \<circ> fst)
      (compute_costs_f64 (uniform_cost_params_f64 huge_write_off_params)
         (baseline_transactions(''Visa'' \<mapsto> 0))) =
     Inr [PlusInf, PlusInf, PlusInf, PlusInf, NaN, PlusInf, PlusInf]"
    unfolding compute_costs_f64_eq [OF dom_uniform bounded_upd]
    by (simp only: map_sum.simps o_apply fst_conv rows)
  then show ?thesis by simp
qed

end
